theory Spec2Isabelle
  imports Main "HOL-Library.Word"
begin

section \<open>Values carried by bus signals\<close>

text \<open>
  A signal body is a Go slice of \<^verbatim>\<open>interface{}\<close>. The dispatch loop reads body
  elements through checked type assertions (\<^verbatim>\<open>signal.Body[2].(string)\<close>), which
  panic when the index is out of range or the dynamic type differs. The datatype
  lists the D-Bus types that occur in the four signals the loop looks at.
\<close>

type_synonym ObjectPath = string

datatype dbus_value =
    VBool bool
  | VString string
  | VObjectPath ObjectPath
  | VUint32 "32 word"

datatype panic = IndexOutOfRange | TypeAssertion

text \<open>\<^verbatim>\<open>body[i].(string)\<close>: the string, or the panic Go raises.\<close>

definition body_string :: "dbus_value list \<Rightarrow> nat \<Rightarrow> panic + string" where
  "body_string body i =
     (if i < length body
      then (case body ! i of VString s \<Rightarrow> Inr s | _ \<Rightarrow> Inl TypeAssertion)
      else Inl IndexOutOfRange)"

text \<open>\<^verbatim>\<open>body[i].(bool)\<close>.\<close>

definition body_bool :: "dbus_value list \<Rightarrow> nat \<Rightarrow> panic + bool" where
  "body_bool body i =
     (if i < length body
      then (case body ! i of VBool b \<Rightarrow> Inr b | _ \<Rightarrow> Inl TypeAssertion)
      else Inl IndexOutOfRange)"

text \<open>
  \<^verbatim>\<open>props[key].(string)\<close> on a \<^verbatim>\<open>map[string]interface{}\<close>: a missing key reads as
  the nil interface, on which the assertion panics as well.
\<close>

definition prop_string :: "(string \<rightharpoonup> dbus_value) \<Rightarrow> string \<Rightarrow> panic + string" where
  "prop_string props key =
     (case props key of Some (VString s) \<Rightarrow> Inr s | _ \<Rightarrow> Inl TypeAssertion)"

text \<open>The fields of \<^verbatim>\<open>dbus.Signal\<close> that the dispatch loop reads.\<close>

record Signal =
  Path :: ObjectPath
  Name :: string
  Body :: "dbus_value list"

datatype error = Error string

section \<open>Channels and the non-blocking send\<close>

text \<open>
  A Go channel as the sender sees it: the buffer capacity, the buffered values
  (oldest first), the number of receivers currently blocked on the channel, and the
  values already handed to receivers. A receiver is only ever blocked while the
  buffer is empty. A send can proceed when a receiver is waiting (the value goes
  straight to it) or the buffer has room; \<^verbatim>\<open>select { case ch <- v: ... default: ... }\<close>
  takes the default branch otherwise, and always does on a nil channel. Channels are
  taken to be open: the subscriber only ever hands over send-only ends.
\<close>

record 'a chan =
  cap :: nat
  buf :: "'a list"
  recvq :: nat
  recvd :: "'a list"

definition receiver_waiting :: "'a chan \<Rightarrow> bool" where
  "receiver_waiting ch = (0 < recvq ch \<and> buf ch = [])"

definition chan_ready :: "'a chan \<Rightarrow> bool" where
  "chan_ready ch = (receiver_waiting ch \<or> length (buf ch) < cap ch)"

definition chan_put :: "'a \<Rightarrow> 'a chan \<Rightarrow> 'a chan" where
  "chan_put v ch =
     (if receiver_waiting ch
      then ch\<lparr>recvq := recvq ch - 1, recvd := recvd ch @ [v]\<rparr>
      else ch\<lparr>buf := buf ch @ [v]\<rparr>)"

text \<open>
  The send case of a \<^verbatim>\<open>select\<close> with a \<^verbatim>\<open>default\<close>: \<open>Some\<close> of the channel after
  the send, or \<open>None\<close> when the default branch is taken (nil channel, or nobody
  waiting and no room).
\<close>

definition try_send :: "'a chan option \<Rightarrow> 'a \<Rightarrow> 'a chan option" where
  "try_send ch v =
     (case ch of
        None \<Rightarrow> None
      | Some c \<Rightarrow> if chan_ready c then Some (chan_put v c) else None)"

text \<open>Everything that was ever sent on a channel, in order.\<close>

definition chan_seen :: "'a chan \<Rightarrow> 'a list" where
  "chan_seen ch = recvd ch @ buf ch"

definition seen :: "'a chan option \<Rightarrow> 'a list" where
  "seen ch = (case ch of None \<Rightarrow> [] | Some c \<Rightarrow> chan_seen c)"

section \<open>The connection\<close>

record SubStateUpdate =
  UnitName :: string
  SubState :: string
  FileState :: string

text \<open>
  \<^verbatim>\<open>Conn\<close> (connection.go): the job listener's map from job path to the caller's
  channel, and the subscriber slot with its three optional channels. The string
  channels of waiting callers live in a store (a list addressed by index), since the
  map and the caller share them; the subscriber's channels have three different
  element types and are kept in the slot itself. The mutexes are left out here,
  where one method runs at a time; the goroutines and the subscriber's mutex come
  in a subsection of their own below.
\<close>

type_synonym ref = nat
type_synonym store = "string chan list"
type_synonym registry = "(ObjectPath \<rightharpoonup> ref) \<times> store"

record Conn =
  jobs :: "ObjectPath \<rightharpoonup> ref"
  updateCh :: "SubStateUpdate chan option"
  errCh :: "error chan option"
  reloadCh :: "bool chan option"

text \<open>
  What subscription.go calls but does not define: the job completion handler, the
  bus lookup \<^verbatim>\<open>GetUnit\<close> (unit name to object path, which can fail), the property
  fetch and the unit file state lookup. They are parameters of the model. The job
  completion handler sees the job map and the callers' channels only.
\<close>

record deps =
  jobComplete :: "Signal \<Rightarrow> registry \<Rightarrow> registry"
  GetUnit :: "string \<Rightarrow> error + ObjectPath"
  GetUnitPropertiesFromObjectPath :: "ObjectPath \<Rightarrow> error + (string \<rightharpoonup> dbus_value)"
  GetUnitFileState :: "string \<Rightarrow> string"

subsection \<open>The subscriber slot (subscription.go, lines 107 to 159)\<close>

definition SetSubStateSubscriber ::
  "SubStateUpdate chan option \<Rightarrow> error chan option \<Rightarrow> bool chan option \<Rightarrow> Conn \<Rightarrow> Conn" where
  "SetSubStateSubscriber u e r c = c\<lparr>updateCh := u, errCh := e, reloadCh := r\<rparr>"

definition RemoveSubStateSubscriber :: "Conn \<Rightarrow> Conn" where
  "RemoveSubStateSubscriber c = c\<lparr>updateCh := None, errCh := None\<rparr>"

definition sendSubStateReload :: "Conn \<Rightarrow> Conn" where
  "sendSubStateReload c =
     (case try_send (reloadCh c) True of
        Some ch \<Rightarrow> c\<lparr>reloadCh := Some ch\<rparr>
      | None \<Rightarrow> c)"

definition sendSubStateUpdate :: "deps \<Rightarrow> ObjectPath \<Rightarrow> Conn \<Rightarrow> panic + Conn" where
  "sendSubStateUpdate d path c =
     (case GetUnitPropertiesFromObjectPath d path of
        Inl err \<Rightarrow>
          (case try_send (errCh c) err of
             Some ch \<Rightarrow> Inr (c\<lparr>errCh := Some ch\<rparr>)
           | None \<Rightarrow> Inr c)
      | Inr unitProps \<Rightarrow>
          (case prop_string unitProps ''SubState'' of
             Inl p \<Rightarrow> Inl p
           | Inr substate \<Rightarrow>
               (case prop_string unitProps ''Id'' of
                  Inl p \<Rightarrow> Inl p
                | Inr unitName \<Rightarrow>
                    (let fileState = GetUnitFileState d unitName;
                         update = \<lparr>UnitName = unitName, SubState = substate,
                                   FileState = fileState\<rparr>
                     in case try_send (updateCh c) update of
                          Some ch \<Rightarrow> Inr (c\<lparr>updateCh := Some ch\<rparr>)
                        | None \<Rightarrow>
                            (case try_send (errCh c) (Error ''update channel full'') of
                               Some ch \<Rightarrow> Inr (c\<lparr>errCh := Some ch\<rparr>)
                             | None \<Rightarrow> Inr c)))))"

subsection \<open>The dispatch loop (subscription.go, lines 42 to 90)\<close>

text \<open>
  The goroutine's state: the connection, the callers' channels, and the two loop
  variables \<^verbatim>\<open>reloadState\<close> and \<^verbatim>\<open>unitFilesChanged\<close>.
\<close>

record dispatch_state =
  conn :: Conn
  chans :: store
  reloadState :: bool
  unitFilesChanged :: bool

datatype step = Continue dispatch_state | Panic panic dispatch_state

text \<open>Lines 84 to 87: the end of the loop body, reached with \<^verbatim>\<open>unitPath\<close> set or empty.\<close>

definition deliver :: "deps \<Rightarrow> ObjectPath \<Rightarrow> dispatch_state \<Rightarrow> step" where
  "deliver d unitPath s =
     (if unitPath = [] then Continue s
      else (case sendSubStateUpdate d unitPath (conn s) of
              Inl p \<Rightarrow> Panic p s
            | Inr c \<Rightarrow> Continue (s\<lparr>conn := c\<rparr>)))"

text \<open>Lines 56 to 58: the job completion handler runs on the job map and the store.\<close>

definition get_registry :: "dispatch_state \<Rightarrow> registry" where
  "get_registry s = (jobs (conn s), chans s)"

definition set_registry :: "registry \<Rightarrow> dispatch_state \<Rightarrow> dispatch_state" where
  "set_registry reg s = s\<lparr>conn := (conn s)\<lparr>jobs := fst reg\<rparr>, chans := snd reg\<rparr>"

definition run_jobComplete :: "deps \<Rightarrow> Signal \<Rightarrow> dispatch_state \<Rightarrow> dispatch_state" where
  "run_jobComplete d signal s =
     (if Name signal = ''org.freedesktop.systemd1.Manager.JobRemoved''
      then set_registry (jobComplete d signal (get_registry s)) s
      else s)"

text \<open>One iteration of the loop body, lines 56 to 87, for a signal read from the queue.\<close>

definition dispatch_signal :: "deps \<Rightarrow> Signal \<Rightarrow> dispatch_state \<Rightarrow> step" where
  "dispatch_signal d signal s0 =
     (let s = run_jobComplete d signal s0 in
      if updateCh (conn s) = None then Continue s
      else if Name signal = ''org.freedesktop.systemd1.Manager.JobRemoved'' then
        (case body_string (Body signal) 2 of
           Inl p \<Rightarrow> Panic p s
         | Inr unitName \<Rightarrow>
             deliver d (case GetUnit d unitName of Inl err \<Rightarrow> [] | Inr p \<Rightarrow> p) s)
      else if Name signal = ''org.freedesktop.DBus.Properties.PropertiesChanged'' then
        (case body_string (Body signal) 0 of
           Inl p \<Rightarrow> Panic p s
         | Inr iface \<Rightarrow>
             deliver d (if iface = ''org.freedesktop.systemd1.Unit'' then Path signal else []) s)
      else if Name signal = ''org.freedesktop.systemd1.Manager.Reloading'' then
        (case body_bool (Body signal) 0 of
           Inl p \<Rightarrow> Panic p s
         | Inr b \<Rightarrow>
             if unitFilesChanged s \<and> \<not> b
             then Continue (s\<lparr>conn := sendSubStateReload (conn s),
                              reloadState := b, unitFilesChanged := False\<rparr>)
             else deliver d [] (s\<lparr>reloadState := b\<rparr>))
      else if Name signal = ''org.freedesktop.systemd1.Manager.UnitFilesChanged'' then
        Continue (s\<lparr>unitFilesChanged := True\<rparr>)
      else deliver d [] s)"

text \<open>
  The loop over the signal queue. The queue is given by the signals the transport
  puts on it and by whether it is closed after them: a receive on a closed, drained
  channel returns \<^verbatim>\<open>ok = false\<close> and the goroutine returns; on an open, empty channel
  the goroutine stays blocked in the receive. A panic ends the goroutine.
\<close>

datatype outcome =
    Returned dispatch_state
  | Blocked dispatch_state
  | Crashed panic dispatch_state

fun dispatch_loop :: "deps \<Rightarrow> Signal list \<Rightarrow> bool \<Rightarrow> dispatch_state \<Rightarrow> outcome" where
  "dispatch_loop d [] closed s = (if closed then Returned s else Blocked s)"
| "dispatch_loop d (signal # queue) closed s =
     (case dispatch_signal d signal s of
        Continue s' \<Rightarrow> dispatch_loop d queue closed s'
      | Panic p s' \<Rightarrow> Crashed p s')"

definition dispatch :: "deps \<Rightarrow> Signal list \<Rightarrow> bool \<Rightarrow> Conn \<Rightarrow> store \<Rightarrow> outcome" where
  "dispatch d queue closed c st =
     dispatch_loop d queue closed
       \<lparr>conn = c, chans = st, reloadState = False, unitFilesChanged = False\<rparr>"

text \<open>The state a step or a run of the loop ends in, whichever way it ends.\<close>

fun step_state :: "step \<Rightarrow> dispatch_state" where
  "step_state (Continue s) = s"
| "step_state (Panic p s) = s"

fun final :: "outcome \<Rightarrow> dispatch_state" where
  "final (Returned s) = s"
| "final (Blocked s) = s"
| "final (Crashed p s) = s"

subsection \<open>The job registry\<close>

text \<open>
  Modelled from the spec: \<^verbatim>\<open>watch(correlation_path) -> completion_channel\<close> of the
  job registry (section 4.3), whose Go source is in neither subscription.go nor
  connection.go. It registers interest and returns a channel the caller can wait
  on, a one-shot delivery target: a fresh channel with room for one value, stored
  under the path.
\<close>

definition watchJob :: "ObjectPath \<Rightarrow> registry \<Rightarrow> ref \<times> registry" where
  "watchJob P reg =
     (case reg of (js, st) \<Rightarrow>
        (length st,
         (js(P \<mapsto> length st), st @ [\<lparr>cap = 1, buf = [], recvq = 0, recvd = []\<rparr>])))"

text \<open>
  Modelled from the spec: the completion handler \<^verbatim>\<open>jobComplete\<close> that subscription.go
  calls and does not define. Section 4.3: the registry looks up the notification's
  origin path, and if a waiting job exists, delivers the notification's result field
  (a status string) to its channel and removes the entry; with no job registered the
  notification is discarded. Section 4.1 makes every hand-off of the loop a
  non-blocking send. The spec does not say where in the notification the result
  field sits, so the projection \<open>result\<close> is a parameter. A job always points at a
  channel of the store; the test on the index only keeps the list access in range.
\<close>

definition jobComplete_spec :: "(Signal \<Rightarrow> string) \<Rightarrow> Signal \<Rightarrow> registry \<Rightarrow> registry" where
  "jobComplete_spec result signal reg =
     (case reg of (js, st) \<Rightarrow>
        (case js (Path signal) of
           None \<Rightarrow> (js, st)
         | Some r \<Rightarrow>
             (js(Path signal := None),
              (if r < length st
               then (case try_send (Some (st ! r)) (result signal) of
                       Some ch \<Rightarrow> st[r := ch]
                     | None \<Rightarrow> st)
               else st))))"

text \<open>Every registered job points at a channel of the store.\<close>

definition wf_registry :: "registry \<Rightarrow> bool" where
  "wf_registry reg = (\<forall>p r. fst reg p = Some r \<longrightarrow> r < length (snd reg))"

text \<open>
  A job whose result has been handed over: the path is no longer registered, no
  registered job points at the channel, and the channel has seen exactly the value.
\<close>

definition settled :: "ObjectPath \<Rightarrow> ref \<Rightarrow> string \<Rightarrow> registry \<Rightarrow> bool" where
  "settled P r v reg =
     (fst reg P = None \<and> (\<forall>p. fst reg p \<noteq> Some r) \<and> r < length (snd reg)
      \<and> chan_seen (snd reg ! r) = [v])"

subsection \<open>A delivery racing with a new subscriber\<close>

text \<open>
  \<^verbatim>\<open>sendSubStateUpdate\<close> runs on the dispatch goroutine, \<^verbatim>\<open>SetSubStateSubscriber\<close> on a
  caller's goroutine; both take the subscriber's mutex for their whole body (lines
  131 to 132 and 108 to 109, the unlock deferred). To follow a delivery and a new
  configuration running at the same time, each method is cut into its atomic steps:
  taking the mutex, each read or write of a field of the slot, releasing the mutex.
  The slot holds channel references here, as in Go, and the channels themselves
  live in two stores, so that the old and the new channels can be told apart. A
  schedule says which goroutine moves next; a goroutine that cannot move (it waits
  for the mutex, or has returned) leaves the state as it is.
\<close>

datatype goroutine = Dispatcher | Caller

record slot_refs =
  updateRef :: "ref option"
  errRef :: "ref option"
  reloadRef :: "ref option"

text \<open>A channel the delivery ran a \<^verbatim>\<open>select\<close> send on: the field it read, and its value.\<close>

datatype attempt = OnUpdateCh "ref option" | OnErrCh "ref option"

text \<open>
  Where \<^verbatim>\<open>sendSubStateUpdate\<close> stands: before \<^verbatim>\<open>Lock\<close> (line 131), before the fetch
  (lines 137 to 150), before one of the three sends (lines 140, 152, 155), before
  the deferred \<^verbatim>\<open>Unlock\<close> (reached by a return or by a panic of lines 146 to 147),
  or ended.
\<close>

datatype send_pc =
    AtLock
  | AtFetch
  | AtSendErr error
  | AtSendUpdate SubStateUpdate
  | AtSendFull
  | AtUnlock "panic option"
  | Ended "panic option"

text \<open>Where \<^verbatim>\<open>SetSubStateSubscriber\<close> stands: lines 108, 110, 111, 112, the deferred unlock.\<close>

datatype set_pc = SetLock | SetUpdateCh | SetErrCh | SetReloadCh | SetUnlock | SetEnded

record world =
  slot :: slot_refs
  mutex :: "goroutine option"
  updateChans :: "ref \<Rightarrow> SubStateUpdate chan"
  errChans :: "ref \<Rightarrow> error chan"
  send_at :: send_pc
  set_at :: set_pc
  attempts :: "attempt list"

text \<open>A non-blocking send on the channel a reference points at; \<open>None\<close> is the default branch.\<close>

definition ref_try_send :: "(ref \<Rightarrow> 'a chan) \<Rightarrow> ref option \<Rightarrow> 'a \<Rightarrow> (ref \<Rightarrow> 'a chan) option" where
  "ref_try_send h r v =
     (case r of
        None \<Rightarrow> None
      | Some i \<Rightarrow> (case try_send (Some (h i)) v of
                    None \<Rightarrow> None
                  | Some ch \<Rightarrow> Some (h(i := ch))))"

text \<open>Lines 137 to 150: the fetch, the two type assertions and the file state lookup.\<close>

definition after_fetch :: "deps \<Rightarrow> ObjectPath \<Rightarrow> send_pc" where
  "after_fetch d path =
     (case GetUnitPropertiesFromObjectPath d path of
        Inl err \<Rightarrow> AtSendErr err
      | Inr unitProps \<Rightarrow>
          (case prop_string unitProps ''SubState'' of
             Inl p \<Rightarrow> AtUnlock (Some p)
           | Inr substate \<Rightarrow>
               (case prop_string unitProps ''Id'' of
                  Inl p \<Rightarrow> AtUnlock (Some p)
                | Inr unitName \<Rightarrow>
                    AtSendUpdate \<lparr>UnitName = unitName, SubState = substate,
                                  FileState = GetUnitFileState d unitName\<rparr>)))"

text \<open>One atomic step of \<^verbatim>\<open>sendSubStateUpdate\<close>; \<open>None\<close> when it cannot move.\<close>

definition send_step :: "deps \<Rightarrow> ObjectPath \<Rightarrow> world \<Rightarrow> world option" where
  "send_step d path w =
     (case send_at w of
        AtLock \<Rightarrow>
          if mutex w = None then Some (w\<lparr>mutex := Some Dispatcher, send_at := AtFetch\<rparr>)
          else None
      | AtFetch \<Rightarrow> Some (w\<lparr>send_at := after_fetch d path\<rparr>)
      | AtSendErr err \<Rightarrow>
          Some (w\<lparr>errChans := (case ref_try_send (errChans w) (errRef (slot w)) err of
                                  Some h \<Rightarrow> h | None \<Rightarrow> errChans w),
                  attempts := attempts w @ [OnErrCh (errRef (slot w))],
                  send_at := AtUnlock None\<rparr>)
      | AtSendUpdate update \<Rightarrow>
          (case ref_try_send (updateChans w) (updateRef (slot w)) update of
             Some h \<Rightarrow>
               Some (w\<lparr>updateChans := h,
                       attempts := attempts w @ [OnUpdateCh (updateRef (slot w))],
                       send_at := AtUnlock None\<rparr>)
           | None \<Rightarrow>
               Some (w\<lparr>attempts := attempts w @ [OnUpdateCh (updateRef (slot w))],
                       send_at := AtSendFull\<rparr>))
      | AtSendFull \<Rightarrow>
          Some (w\<lparr>errChans := (case ref_try_send (errChans w) (errRef (slot w))
                                       (Error ''update channel full'') of
                                  Some h \<Rightarrow> h | None \<Rightarrow> errChans w),
                  attempts := attempts w @ [OnErrCh (errRef (slot w))],
                  send_at := AtUnlock None\<rparr>)
      | AtUnlock p \<Rightarrow> Some (w\<lparr>mutex := None, send_at := Ended p\<rparr>)
      | Ended p \<Rightarrow> None)"

text \<open>One atomic step of \<^verbatim>\<open>SetSubStateSubscriber(updateCh, errCh, reloadCh)\<close>.\<close>

definition set_step :: "slot_refs \<Rightarrow> world \<Rightarrow> world option" where
  "set_step new w =
     (case set_at w of
        SetLock \<Rightarrow>
          if mutex w = None then Some (w\<lparr>mutex := Some Caller, set_at := SetUpdateCh\<rparr>)
          else None
      | SetUpdateCh \<Rightarrow>
          Some (w\<lparr>slot := (slot w)\<lparr>updateRef := updateRef new\<rparr>, set_at := SetErrCh\<rparr>)
      | SetErrCh \<Rightarrow>
          Some (w\<lparr>slot := (slot w)\<lparr>errRef := errRef new\<rparr>, set_at := SetReloadCh\<rparr>)
      | SetReloadCh \<Rightarrow>
          Some (w\<lparr>slot := (slot w)\<lparr>reloadRef := reloadRef new\<rparr>, set_at := SetUnlock\<rparr>)
      | SetUnlock \<Rightarrow> Some (w\<lparr>mutex := None, set_at := SetEnded\<rparr>)
      | SetEnded \<Rightarrow> None)"

definition sched_step :: "deps \<Rightarrow> ObjectPath \<Rightarrow> slot_refs \<Rightarrow> goroutine \<Rightarrow> world \<Rightarrow> world" where
  "sched_step d path new g w =
     (case (case g of Dispatcher \<Rightarrow> send_step d path w | Caller \<Rightarrow> set_step new w) of
        Some w' \<Rightarrow> w'
      | None \<Rightarrow> w)"


text \<open>
  Both methods have just been called: the slot holds the old configuration, the
  mutex is free, nothing has been sent.
\<close>

definition both_called ::
  "slot_refs \<Rightarrow> (ref \<Rightarrow> SubStateUpdate chan) \<Rightarrow> (ref \<Rightarrow> error chan) \<Rightarrow> world" where
  "both_called old us es =
     \<lparr>slot = old, mutex = None, updateChans = us, errChans = es,
      send_at = AtLock, set_at = SetLock, attempts = []\<rparr>"






text \<open>
  For comparison only: the same two methods with a mutex that never makes anybody
  wait. Before each step the mutex is taken to be free.
\<close>

fun run_without_mutex ::
  "deps \<Rightarrow> ObjectPath \<Rightarrow> slot_refs \<Rightarrow> goroutine list \<Rightarrow> world \<Rightarrow> world" where
  "run_without_mutex d path new [] w = w"
| "run_without_mutex d path new (g # schedule) w =
     run_without_mutex d path new schedule (sched_step d path new g (w\<lparr>mutex := None\<rparr>))"

subsection \<open>Notions used in the statements\<close>

definition is_UnitFilesChanged :: "Signal \<Rightarrow> bool" where
  "is_UnitFilesChanged signal =
     (Name signal = ''org.freedesktop.systemd1.Manager.UnitFilesChanged'')"

definition is_Reloading :: "bool \<Rightarrow> Signal \<Rightarrow> bool" where
  "is_Reloading b signal =
     (Name signal = ''org.freedesktop.systemd1.Manager.Reloading''
      \<and> body_bool (Body signal) 0 = Inr b)"

text \<open>A non-blocking send on the channel would go through: present, and not full.\<close>

definition sendable :: "'a chan option \<Rightarrow> bool" where
  "sendable ch = (case ch of None \<Rightarrow> False | Some c \<Rightarrow> chan_ready c)"

definition buffered :: "'a chan option \<Rightarrow> nat" where
  "buffered ch = (case ch of None \<Rightarrow> 0 | Some c \<Rightarrow> length (buf c))"

definition capacity :: "'a chan option \<Rightarrow> nat" where
  "capacity ch = (case ch of None \<Rightarrow> 0 | Some c \<Rightarrow> cap c)"

text \<open>
  The candidate entity path of a notification in the words of the routing algorithm
  (section 4.1, step 2), with the empty path for "no candidate" as in the code.
\<close>

definition candidate :: "deps \<Rightarrow> Signal \<Rightarrow> ObjectPath" where
  "candidate d signal =
     (if Name signal = ''org.freedesktop.systemd1.Manager.JobRemoved'' then
        (case body_string (Body signal) 2 of
           Inr unitName \<Rightarrow> (case GetUnit d unitName of Inr p \<Rightarrow> p | Inl err \<Rightarrow> [])
         | Inl p \<Rightarrow> [])
      else if Name signal = ''org.freedesktop.DBus.Properties.PropertiesChanged'' then
        (if body_string (Body signal) 0 = Inr ''org.freedesktop.systemd1.Unit''
         then Path signal else [])
      else [])"

subsection \<open>Concrete buses, channels and signals\<close>

text \<open>A bus on which every lookup fails and job completion does nothing.\<close>

definition no_units :: deps where
  "no_units =
     \<lparr>jobComplete = (\<lambda>signal reg. reg),
      GetUnit = (\<lambda>n. Inl (Error ''no such unit'')),
      GetUnitPropertiesFromObjectPath = (\<lambda>p. Inl (Error ''no such object'')),
      GetUnitFileState = (\<lambda>n. [])\<rparr>"

text \<open>
  A bus that knows the unit \<^verbatim>\<open>a.service\<close> at \<^verbatim>\<open>/u/a\<close>; job completion is the
  registry's handler reading the result from the fourth body element.
\<close>

definition result4 :: "Signal \<Rightarrow> string" where
  "result4 signal = (case body_string (Body signal) 3 of Inr s \<Rightarrow> s | Inl p \<Rightarrow> [])"

definition one_unit :: deps where
  "one_unit =
     \<lparr>jobComplete = jobComplete_spec result4,
      GetUnit = (\<lambda>n. if n = ''a.service'' then Inr ''/u/a'' else Inl (Error ''no such unit'')),
      GetUnitPropertiesFromObjectPath =
        (\<lambda>p. if p = ''/u/a''
             then Inr [''Id'' \<mapsto> VString ''a.service'', ''SubState'' \<mapsto> VString ''running'']
             else Inl (Error ''no such object'')),
      GetUnitFileState = (\<lambda>n. ''enabled'')\<rparr>"

text \<open>A bus whose property fetch succeeds with no properties at all.\<close>

definition bare_object :: deps where
  "bare_object =
     \<lparr>jobComplete = (\<lambda>signal reg. reg),
      GetUnit = (\<lambda>n. Inl (Error ''no such unit'')),
      GetUnitPropertiesFromObjectPath = (\<lambda>p. Inr Map.empty),
      GetUnitFileState = (\<lambda>n. [])\<rparr>"

definition empty_chan :: "nat \<Rightarrow> 'a chan" where
  "empty_chan n = \<lparr>cap = n, buf = [], recvq = 0, recvd = []\<rparr>"

definition no_subscriber :: Conn where
  "no_subscriber = \<lparr>jobs = Map.empty, updateCh = None, errCh = None, reloadCh = None\<rparr>"

definition sig_UnitFilesChanged :: Signal where
  "sig_UnitFilesChanged =
     \<lparr>Path = ''/org/freedesktop/systemd1'',
      Name = ''org.freedesktop.systemd1.Manager.UnitFilesChanged'', Body = []\<rparr>"

definition sig_Reloading :: "bool \<Rightarrow> Signal" where
  "sig_Reloading b =
     \<lparr>Path = ''/org/freedesktop/systemd1'',
      Name = ''org.freedesktop.systemd1.Manager.Reloading'', Body = [VBool b]\<rparr>"

definition sig_PropertiesChanged :: "ObjectPath \<Rightarrow> Signal" where
  "sig_PropertiesChanged p =
     \<lparr>Path = p, Name = ''org.freedesktop.DBus.Properties.PropertiesChanged'',
      Body = [VString ''org.freedesktop.systemd1.Unit'']\<rparr>"

definition sig_JobRemoved :: "ObjectPath \<Rightarrow> string \<Rightarrow> string \<Rightarrow> Signal" where
  "sig_JobRemoved p unit res =
     \<lparr>Path = p, Name = ''org.freedesktop.systemd1.Manager.JobRemoved'',
      Body = [VUint32 1, VObjectPath p, VString unit, VString res]\<rparr>"

section \<open>Basic facts\<close>

subsection \<open>Channels\<close>

lemma chan_seen_put: "chan_seen (chan_put v ch) = chan_seen ch @ [v]"
  by (simp add: chan_seen_def chan_put_def receiver_waiting_def)

lemma seen_try_send:
  "try_send ch v = Some ch' \<Longrightarrow> seen (Some ch') = seen ch @ [v]"
  by (auto simp add: try_send_def seen_def chan_seen_put split: option.splits if_splits)

lemma try_send_None: "(try_send ch v = None) = (\<not> sendable ch)"
  by (simp add: try_send_def sendable_def split: option.splits)

lemma try_send_Some_sendable: "try_send ch v = Some ch' \<Longrightarrow> sendable ch"
  using try_send_None [of ch v] by auto

lemma try_send_bounds:
  assumes "try_send ch v = Some ch'"
  shows "capacity (Some ch') = capacity ch
       \<and> buffered (Some ch') \<le> max (buffered ch) (capacity ch)
       \<and> length (seen (Some ch')) = Suc (length (seen ch))"
  using assms
  by (auto simp add: try_send_def capacity_def buffered_def seen_def chan_seen_def chan_put_def
      chan_ready_def split: option.splits if_splits)

lemma unbuffered_not_sendable:
  "cap u = 0 \<Longrightarrow> recvq u = 0 \<Longrightarrow> \<not> sendable (Some u)"
  by (simp add: sendable_def chan_ready_def receiver_waiting_def)

subsection \<open>The subscriber slot\<close>

lemma seen_sendSubStateReload:
  "seen (reloadCh (sendSubStateReload c)) =
     (if sendable (reloadCh c) then seen (reloadCh c) @ [True] else seen (reloadCh c))"
proof (cases "try_send (reloadCh c) True")
  case None
  then show ?thesis
    using try_send_None [of "reloadCh c" True] by (simp add: sendSubStateReload_def)
next
  case (Some ch)
  then have "sendable (reloadCh c)"
    using try_send_None [of "reloadCh c" True] by simp
  with Some show ?thesis
    by (simp add: sendSubStateReload_def seen_try_send)
qed

lemma sendSubStateReload_frame:
  "updateCh (sendSubStateReload c) = updateCh c \<and> errCh (sendSubStateReload c) = errCh c
   \<and> jobs (sendSubStateReload c) = jobs c"
  by (simp add: sendSubStateReload_def split: option.splits)

lemma sendSubStateUpdate_fetch_failed:
  assumes "GetUnitPropertiesFromObjectPath d path = Inl err"
  shows "sendSubStateUpdate d path c =
           Inr (case try_send (errCh c) err of Some ch \<Rightarrow> c\<lparr>errCh := Some ch\<rparr> | None \<Rightarrow> c)"
  using assms by (simp add: sendSubStateUpdate_def split: option.splits)

lemma sendSubStateUpdate_fetched:
  assumes "GetUnitPropertiesFromObjectPath d path = Inr props"
    and "prop_string props ''SubState'' = Inr sub" and "prop_string props ''Id'' = Inr name"
  shows "sendSubStateUpdate d path c =
           Inr (case try_send (updateCh c)
                       \<lparr>UnitName = name, SubState = sub, FileState = GetUnitFileState d name\<rparr> of
                  Some ch \<Rightarrow> c\<lparr>updateCh := Some ch\<rparr>
                | None \<Rightarrow> (case try_send (errCh c) (Error ''update channel full'') of
                             Some ch \<Rightarrow> c\<lparr>errCh := Some ch\<rparr>
                           | None \<Rightarrow> c))"
  using assms by (simp add: sendSubStateUpdate_def Let_def split: option.splits)

lemma send_error_effect:
  fixes c :: Conn
  defines "c' \<equiv> (\<lambda>e. case try_send (errCh c) e of Some ch \<Rightarrow> c\<lparr>errCh := Some ch\<rparr> | None \<Rightarrow> c)"
  shows "updateCh (c' e) = updateCh c \<and> reloadCh (c' e) = reloadCh c \<and> jobs (c' e) = jobs c
     \<and> seen (errCh (c' e)) = (if sendable (errCh c) then seen (errCh c) @ [e] else seen (errCh c))
     \<and> (\<not> sendable (errCh c) \<longrightarrow> c' e = c)"
proof (cases "try_send (errCh c) e")
  case None
  then show ?thesis
    using try_send_None [of "errCh c" e] by (simp add: c'_def)
next
  case (Some ch)
  then show ?thesis
    using try_send_Some_sendable [OF Some] seen_try_send [OF Some] by (simp add: c'_def)
qed

lemma sendSubStateUpdate_cases:
  assumes "sendSubStateUpdate d p c = Inr c'"
  shows "c' = c
       \<or> (\<exists>e ch. try_send (errCh c) e = Some ch \<and> c' = c\<lparr>errCh := Some ch\<rparr>)
       \<or> (\<exists>u ch. try_send (updateCh c) u = Some ch \<and> c' = c\<lparr>updateCh := Some ch\<rparr>)"
  using assms
  by (auto simp add: sendSubStateUpdate_def Let_def split: sum.splits option.splits)

lemma sendSubStateUpdate_frame:
  assumes "sendSubStateUpdate d path c = Inr c'"
  shows "reloadCh c' = reloadCh c \<and> jobs c' = jobs c"
  using assms
  by (auto simp add: sendSubStateUpdate_def Let_def split: sum.splits option.splits)

lemma sendSubStateUpdate_channels:
  assumes "sendSubStateUpdate d p c = Inr c'"
  shows "capacity (errCh c') = capacity (errCh c)
       \<and> buffered (errCh c') \<le> max (buffered (errCh c)) (capacity (errCh c))
       \<and> length (seen (errCh c')) \<le> Suc (length (seen (errCh c)))
       \<and> (\<not> sendable (updateCh c) \<longrightarrow> updateCh c' = updateCh c)"
  using sendSubStateUpdate_cases [OF assms]
proof (elim disjE exE conjE)
  assume "c' = c"
  then show ?thesis by simp
next
  fix e ch
  assume "try_send (errCh c) e = Some ch" and "c' = c\<lparr>errCh := Some ch\<rparr>"
  then show ?thesis
    using try_send_bounds [of "errCh c" e ch] by simp
next
  fix u ch
  assume "try_send (updateCh c) u = Some ch" and "c' = c\<lparr>updateCh := Some ch\<rparr>"
  then show ?thesis
    using try_send_Some_sendable [of "updateCh c" u ch] by simp
qed

subsection \<open>One iteration of the loop\<close>

lemma get_set_registry [simp]:
  "conn (set_registry reg s) = (conn s)\<lparr>jobs := fst reg\<rparr>"
  "chans (set_registry reg s) = snd reg"
  "reloadState (set_registry reg s) = reloadState s"
  "unitFilesChanged (set_registry reg s) = unitFilesChanged s"
  by (simp_all add: set_registry_def)

lemma run_jobComplete_frame:
  "updateCh (conn (run_jobComplete d signal s)) = updateCh (conn s)"
  "errCh (conn (run_jobComplete d signal s)) = errCh (conn s)"
  "reloadCh (conn (run_jobComplete d signal s)) = reloadCh (conn s)"
  "reloadState (run_jobComplete d signal s) = reloadState s"
  "unitFilesChanged (run_jobComplete d signal s) = unitFilesChanged s"
  by (simp_all add: run_jobComplete_def)

lemma get_registry_run_jobComplete:
  "get_registry (run_jobComplete d signal s) =
     (if Name signal = ''org.freedesktop.systemd1.Manager.JobRemoved''
      then jobComplete d signal (get_registry s) else get_registry s)"
  by (simp add: run_jobComplete_def get_registry_def)

lemma deliver_frame:
  "reloadCh (conn (step_state (deliver d p s))) = reloadCh (conn s)"
  "jobs (conn (step_state (deliver d p s))) = jobs (conn s)"
  "chans (step_state (deliver d p s)) = chans s"
  "reloadState (step_state (deliver d p s)) = reloadState s"
  "unitFilesChanged (step_state (deliver d p s)) = unitFilesChanged s"
  by (auto simp add: deliver_def dest: sendSubStateUpdate_frame split: sum.splits)

lemma deliver_registry:
  "get_registry (step_state (deliver d p s)) = get_registry s"
  by (simp add: get_registry_def deliver_frame)

lemma deliver_channels:
  fixes d p s
  defines "s' \<equiv> step_state (deliver d p s)"
  shows "capacity (errCh (conn s')) = capacity (errCh (conn s))
       \<and> buffered (errCh (conn s')) \<le> max (buffered (errCh (conn s))) (capacity (errCh (conn s)))
       \<and> length (seen (errCh (conn s'))) \<le> Suc (length (seen (errCh (conn s))))
       \<and> (\<not> sendable (updateCh (conn s)) \<longrightarrow> updateCh (conn s') = updateCh (conn s))"
proof (cases "p = [] \<or> (\<exists>q. sendSubStateUpdate d p (conn s) = Inl q)")
  case True
  then have "s' = s"
    by (auto simp add: s'_def deliver_def)
  then show ?thesis by simp
next
  case False
  then obtain c' where c': "sendSubStateUpdate d p (conn s) = Inr c'"
    by (cases "sendSubStateUpdate d p (conn s)") auto
  with False have "conn s' = c'"
    by (simp add: s'_def deliver_def)
  with sendSubStateUpdate_channels [OF c'] show ?thesis by simp
qed

lemma step_no_subscriber:
  "updateCh (conn s) = None \<Longrightarrow>
   dispatch_signal d signal s = Continue (run_jobComplete d signal s)"
  by (simp add: dispatch_signal_def run_jobComplete_def set_registry_def Let_def)

lemma step_UnitFilesChanged:
  "is_UnitFilesChanged signal \<Longrightarrow> updateCh (conn s) \<noteq> None \<Longrightarrow>
   dispatch_signal d signal s = Continue (s\<lparr>unitFilesChanged := True\<rparr>)"
  by (auto simp add: dispatch_signal_def run_jobComplete_def is_UnitFilesChanged_def)

lemma step_Reloading:
  "is_Reloading b signal \<Longrightarrow> updateCh (conn s) \<noteq> None \<Longrightarrow>
   dispatch_signal d signal s =
     (if unitFilesChanged s \<and> \<not> b
      then Continue (s\<lparr>conn := sendSubStateReload (conn s), reloadState := b,
                       unitFilesChanged := False\<rparr>)
      else Continue (s\<lparr>reloadState := b\<rparr>))"
  by (auto simp add: dispatch_signal_def run_jobComplete_def is_Reloading_def deliver_def)

lemma step_JobRemoved:
  assumes "Name signal = ''org.freedesktop.systemd1.Manager.JobRemoved''"
    and "updateCh (conn s) \<noteq> None"
  shows "dispatch_signal d signal s =
     (case body_string (Body signal) 2 of
        Inl p \<Rightarrow> Panic p (run_jobComplete d signal s)
      | Inr unitName \<Rightarrow>
          deliver d (case GetUnit d unitName of Inl err \<Rightarrow> [] | Inr p \<Rightarrow> p)
            (run_jobComplete d signal s))"
proof -
  from assms(2) have "updateCh (conn (run_jobComplete d signal s)) \<noteq> None"
    by (simp add: run_jobComplete_frame)
  with assms(1) show ?thesis
    by (auto simp add: dispatch_signal_def Let_def)
qed

lemma step_PropertiesChanged:
  assumes "Name signal = ''org.freedesktop.DBus.Properties.PropertiesChanged''"
    and "updateCh (conn s) \<noteq> None"
  shows "dispatch_signal d signal s =
     (case body_string (Body signal) 0 of
        Inl p \<Rightarrow> Panic p s
      | Inr iface \<Rightarrow>
          deliver d (if iface = ''org.freedesktop.systemd1.Unit'' then Path signal else []) s)"
proof -
  from assms(1) have "run_jobComplete d signal s = s"
    by (simp add: run_jobComplete_def)
  with assms show ?thesis
    by (auto simp add: dispatch_signal_def Let_def)
qed

lemma step_Reloading_body:
  assumes "Name signal = ''org.freedesktop.systemd1.Manager.Reloading''"
    and "updateCh (conn s) \<noteq> None"
  shows "dispatch_signal d signal s =
     (case body_bool (Body signal) 0 of
        Inl p \<Rightarrow> Panic p s
      | Inr b \<Rightarrow>
          if unitFilesChanged s \<and> \<not> b
          then Continue (s\<lparr>conn := sendSubStateReload (conn s), reloadState := b,
                           unitFilesChanged := False\<rparr>)
          else Continue (s\<lparr>reloadState := b\<rparr>))"
proof -
  from assms(1) have "run_jobComplete d signal s = s"
    by (simp add: run_jobComplete_def)
  with assms show ?thesis
    by (auto simp add: dispatch_signal_def Let_def deliver_def split: sum.splits)
qed

lemma step_other:
  assumes "Name signal \<noteq> ''org.freedesktop.systemd1.Manager.JobRemoved''"
    and "Name signal \<noteq> ''org.freedesktop.DBus.Properties.PropertiesChanged''"
    and "Name signal \<noteq> ''org.freedesktop.systemd1.Manager.Reloading''"
    and "Name signal \<noteq> ''org.freedesktop.systemd1.Manager.UnitFilesChanged''"
  shows "dispatch_signal d signal s = Continue s"
  using assms by (simp add: dispatch_signal_def Let_def run_jobComplete_def deliver_def)

lemma candidate_JobRemoved:
  "Name signal = ''org.freedesktop.systemd1.Manager.JobRemoved'' \<Longrightarrow>
   body_string (Body signal) 2 = Inr unitName \<Longrightarrow>
   candidate d signal = (case GetUnit d unitName of Inl err \<Rightarrow> [] | Inr p \<Rightarrow> p)"
  by (simp add: candidate_def split: sum.splits)

lemma candidate_PropertiesChanged:
  "Name signal = ''org.freedesktop.DBus.Properties.PropertiesChanged'' \<Longrightarrow>
   body_string (Body signal) 0 = Inr iface \<Longrightarrow>
   candidate d signal = (if iface = ''org.freedesktop.systemd1.Unit'' then Path signal else [])"
  by (simp add: candidate_def)

lemma step_shape:
  fixes d signal s
  defines "s1 \<equiv> run_jobComplete d signal s"
    and "s' \<equiv> step_state (dispatch_signal d signal s)"
  obtains (jc) "s' = s1"
    | (dl) "s' = step_state (deliver d (candidate d signal) s1)"
    | (rl) "candidate d signal = []" "errCh (conn s') = errCh (conn s)"
        "updateCh (conn s') = updateCh (conn s)"
proof (cases "updateCh (conn s) = None")
  case True
  then have "s' = s1" by (simp add: s'_def s1_def step_no_subscriber)
  then show ?thesis by (rule jc)
next
  case sub: False
  show ?thesis
  proof (cases "Name signal = ''org.freedesktop.systemd1.Manager.JobRemoved''")
    case True
    show ?thesis
    proof (cases "body_string (Body signal) 2")
      case (Inl p)
      then have "s' = s1" by (simp add: s'_def s1_def step_JobRemoved [OF True sub])
      then show ?thesis by (rule jc)
    next
      case (Inr n)
      then have "s' = step_state (deliver d (candidate d signal) s1)"
        by (simp add: s'_def s1_def step_JobRemoved [OF True sub]
            candidate_JobRemoved [OF True Inr])
      then show ?thesis by (rule dl)
    qed
  next
    case nj: False
    then have s1: "s1 = s" by (simp add: s1_def run_jobComplete_def)
    show ?thesis
    proof (cases "Name signal = ''org.freedesktop.DBus.Properties.PropertiesChanged''")
      case True
      show ?thesis
      proof (cases "body_string (Body signal) 0")
        case (Inl p)
        then have "s' = s1" by (simp add: s'_def s1 step_PropertiesChanged [OF True sub])
        then show ?thesis by (rule jc)
      next
        case (Inr iface)
        then have "s' = step_state (deliver d (candidate d signal) s1)"
          by (simp add: s'_def s1 step_PropertiesChanged [OF True sub]
              candidate_PropertiesChanged [OF True Inr])
        then show ?thesis by (rule dl)
      qed
    next
      case np: False
      from nj np have none: "candidate d signal = []" by (simp add: candidate_def)
      show ?thesis
      proof (cases "Name signal = ''org.freedesktop.systemd1.Manager.Reloading''")
        case True
        have "errCh (conn s') = errCh (conn s) \<and> updateCh (conn s') = updateCh (conn s)"
          by (simp add: s'_def step_Reloading_body [OF True sub] sendSubStateReload_frame
              split: sum.splits)
        with none show ?thesis using rl by blast
      next
        case nr: False
        show ?thesis
        proof (cases "Name signal = ''org.freedesktop.systemd1.Manager.UnitFilesChanged''")
          case True
          then have "s' = s\<lparr>unitFilesChanged := True\<rparr>"
            using sub by (simp add: s'_def step_UnitFilesChanged is_UnitFilesChanged_def)
          then have "errCh (conn s') = errCh (conn s) \<and> updateCh (conn s') = updateCh (conn s)"
            by simp
          with none show ?thesis using rl by blast
        next
          case False
          with nj np nr have "s' = s1" by (simp add: s'_def s1 step_other)
          then show ?thesis by (rule jc)
        qed
      qed
    qed
  qed
qed

lemma step_channels:
  fixes d signal s
  defines "s' \<equiv> step_state (dispatch_signal d signal s)"
  shows "capacity (errCh (conn s')) = capacity (errCh (conn s))
       \<and> buffered (errCh (conn s')) \<le> max (buffered (errCh (conn s))) (capacity (errCh (conn s)))
       \<and> length (seen (errCh (conn s'))) \<le> Suc (length (seen (errCh (conn s))))
       \<and> (\<not> sendable (updateCh (conn s)) \<longrightarrow> updateCh (conn s') = updateCh (conn s))"
proof -
  let ?s1 = "run_jobComplete d signal s"
  have same: "errCh (conn ?s1) = errCh (conn s)" "updateCh (conn ?s1) = updateCh (conn s)"
    by (simp_all add: run_jobComplete_frame)
  show ?thesis
  proof (cases d signal s rule: step_shape)
    case jc
    with same show ?thesis by (simp add: s'_def)
  next
    case dl
    with deliver_channels [of d "candidate d signal" ?s1] same show ?thesis
      by (simp add: s'_def)
  next
    case rl
    then show ?thesis by (simp add: s'_def)
  qed
qed

lemma step_no_candidate:
  assumes "candidate d signal = []"
  shows "updateCh (conn (step_state (dispatch_signal d signal s))) = updateCh (conn s)
       \<and> errCh (conn (step_state (dispatch_signal d signal s))) = errCh (conn s)"
proof (cases d signal s rule: step_shape)
  case jc
  then show ?thesis by (simp add: run_jobComplete_frame)
next
  case dl
  with assms show ?thesis by (simp add: deliver_def run_jobComplete_frame)
next
  case rl
  then show ?thesis by simp
qed

lemma step_locals_no_subscriber:
  "updateCh (conn s) = None \<Longrightarrow>
   reloadState (step_state (dispatch_signal d signal s)) = reloadState s
   \<and> unitFilesChanged (step_state (dispatch_signal d signal s)) = unitFilesChanged s"
  by (simp add: step_no_subscriber run_jobComplete_frame)

(* what step does to reload channel *)

lemma step_reloadCh:
  "reloadCh (conn (step_state (dispatch_signal d signal s))) =
     (if updateCh (conn s) \<noteq> None \<and> is_Reloading False signal \<and> unitFilesChanged s
      then reloadCh (sendSubStateReload (conn s)) else reloadCh (conn s))"
proof (cases "updateCh (conn s)")
  case None
  then show ?thesis by (simp add: step_no_subscriber run_jobComplete_frame)
next
  case (Some a)
  then have up: "updateCh (conn (run_jobComplete d signal s)) \<noteq> None"
    by (simp add: run_jobComplete_frame)
  show ?thesis
  proof (cases "Name signal = ''org.freedesktop.systemd1.Manager.Reloading''")
    case True
    then have "run_jobComplete d signal s = s" by (simp add: run_jobComplete_def)
    with True Some show ?thesis
      by (auto simp add: dispatch_signal_def is_Reloading_def deliver_frame split: sum.splits)
  next
    case False
    then have "\<not> is_Reloading False signal" by (simp add: is_Reloading_def)
    with False up show ?thesis
      by (auto simp add: dispatch_signal_def Let_def deliver_frame run_jobComplete_frame
          split: sum.splits)
  qed
qed

lemma step_registry:
  "get_registry (step_state (dispatch_signal d signal s)) = get_registry (run_jobComplete d signal s)"
  by (simp add: dispatch_signal_def Let_def deliver_registry split: sum.splits)
     (simp add: get_registry_def sendSubStateReload_frame)

subsection \<open>The loop\<close>

lemma dispatch_loop_closed_open:
  "(dispatch_loop d queue True s = Returned s') = (dispatch_loop d queue False s = Blocked s')"
  by (induction queue arbitrary: s) (auto split: step.splits)

lemma dispatch_loop_crash_any:
  "(dispatch_loop d queue True s = Crashed p s') = (dispatch_loop d queue False s = Crashed p s')"
  by (induction queue arbitrary: s) (auto split: step.splits)

lemma dispatch_loop_never_blocked:
  "dispatch_loop d queue True s \<noteq> Blocked s'"
  by (induction queue arbitrary: s) (auto split: step.splits)

lemma loop_channels:
  assumes u: "cap u = 0" "recvq u = 0"
  shows "updateCh (conn s) = Some u \<Longrightarrow>
     updateCh (conn (final (dispatch_loop d queue closed s))) = Some u
     \<and> capacity (errCh (conn (final (dispatch_loop d queue closed s)))) = capacity (errCh (conn s))
     \<and> buffered (errCh (conn (final (dispatch_loop d queue closed s))))
         \<le> max (buffered (errCh (conn s))) (capacity (errCh (conn s)))
     \<and> length (seen (errCh (conn (final (dispatch_loop d queue closed s)))))
         \<le> length (seen (errCh (conn s))) + length queue"
proof (induction queue arbitrary: s)
  case Nil
  then show ?case by simp
next
  case (Cons signal queue)
  let ?s1 = "step_state (dispatch_signal d signal s)"
  from Cons.prems u have ns: "\<not> sendable (updateCh (conn s))"
    by (simp add: unbuffered_not_sendable)
  from step_channels [of d signal s] ns Cons.prems
  have st: "updateCh (conn ?s1) = Some u"
    "capacity (errCh (conn ?s1)) = capacity (errCh (conn s))"
    "buffered (errCh (conn ?s1)) \<le> max (buffered (errCh (conn s))) (capacity (errCh (conn s)))"
    "length (seen (errCh (conn ?s1))) \<le> Suc (length (seen (errCh (conn s))))"
    by simp_all
  show ?case
  proof (cases "dispatch_signal d signal s")
    case (Continue s2)
    then have s2: "?s1 = s2" by simp
    from Cons.IH [of s2] st show ?thesis
      unfolding s2 using Continue by (simp add: max_def split: if_splits)
  next
    case (Panic p s2)
    with st show ?thesis by simp
  qed
qed

subsection \<open>The job registry\<close>

lemma jobComplete_spec_settled:
  assumes "settled P r v reg"
  shows "settled P r v (jobComplete_spec result signal reg)"
proof (cases reg)
  case (Pair js st)
  show ?thesis
  proof (cases "js (Path signal)")
    case None
    with Pair assms show ?thesis by (simp add: jobComplete_spec_def)
  next
    case (Some r')
    with Pair assms have ne: "r' \<noteq> r" by (auto simp add: settled_def)
    with Pair Some assms show ?thesis
      by (auto simp add: jobComplete_spec_def settled_def split: option.splits)
  qed
qed

lemma step_settled:
  assumes "jobComplete d = jobComplete_spec result" and "settled P r v (get_registry s)"
  shows "settled P r v (get_registry (step_state (dispatch_signal d signal s)))"
  using assms by (simp add: step_registry get_registry_run_jobComplete jobComplete_spec_settled)

lemma loop_settled:
  assumes "jobComplete d = jobComplete_spec result"
  shows "settled P r v (get_registry s) \<Longrightarrow>
         settled P r v (get_registry (final (dispatch_loop d queue closed s)))"
proof (induction queue arbitrary: s)
  case Nil
  then show ?case by simp
next
  case (Cons signal queue)
  from step_settled [OF assms Cons.prems, of signal]
  have st: "settled P r v (get_registry (step_state (dispatch_signal d signal s)))" .
  show ?case
  proof (cases "dispatch_signal d signal s")
    case (Continue s')
    with st Cons.IH [of s'] show ?thesis by simp
  next
    case (Panic p s')
    with st show ?thesis by simp
  qed
qed

lemma watch_then_complete:
  assumes wf: "wf_registry reg" and w: "watchJob P reg = (r, reg')" and path: "Path signal = P"
  shows "settled P r (result signal) (jobComplete_spec result signal reg')"
proof (cases reg)
  case (Pair js st)
  with w have r: "r = length st"
    and reg': "reg' = (js(P \<mapsto> length st), st @ [\<lparr>cap = 1, buf = [], recvq = 0, recvd = []\<rparr>])"
    by (auto simp add: watchJob_def)
  have fresh: "\<forall>p. js p \<noteq> Some (length st)"
    using wf Pair by (auto simp add: wf_registry_def)
  show ?thesis
    using fresh path
    by (simp add: reg' r jobComplete_spec_def settled_def try_send_def chan_ready_def
        receiver_waiting_def chan_put_def chan_seen_def)
qed

subsection \<open>A delivery racing with a new subscriber\<close>










section \<open>Reload coalescing\<close>

text \<open>
  C1 (as amended). With an update channel installed and a reload channel that can
  take a value, the dispatch loop run on [UnitFilesChanged, Reloading(true),
  Reloading(false)] puts exactly one reload event on the reload channel, and so does
  [UnitFilesChanged, Reloading(true), Reloading(true), Reloading(false)]. The run
  on [Reloading(true), Reloading(false)] sends nothing at all, whatever the
  subscriber: the connection ends as it started.
\<close>

theorem reload_coalescing:
  assumes u: "is_UnitFilesChanged u"
    and r1: "is_Reloading True r1" and r1': "is_Reloading True r1'"
    and r0: "is_Reloading False r0"
  shows "(updateCh c \<noteq> None \<and> sendable (reloadCh c) \<longrightarrow>
            (\<exists>s'. dispatch d [u, r1, r0] closed c st = (if closed then Returned s' else Blocked s')
                \<and> seen (reloadCh (conn s')) = seen (reloadCh c) @ [True])
          \<and> (\<exists>s'. dispatch d [u, r1, r1', r0] closed c st
                    = (if closed then Returned s' else Blocked s')
                \<and> seen (reloadCh (conn s')) = seen (reloadCh c) @ [True]))
       \<and> dispatch d [r1, r0] closed c st =
            (if closed
             then Returned \<lparr>conn = c, chans = st, reloadState = False, unitFilesChanged = False\<rparr>
             else Blocked \<lparr>conn = c, chans = st, reloadState = False, unitFilesChanged = False\<rparr>)"
proof -
  let ?s0 = "\<lparr>conn = c, chans = st, reloadState = False, unitFilesChanged = False\<rparr>"
  have none: "dispatch d [r1, r0] closed c st = (if closed then Returned ?s0 else Blocked ?s0)"
  proof (cases "updateCh c")
    case None
    moreover have "run_jobComplete d r1 ?s0 = ?s0" "run_jobComplete d r0 ?s0 = ?s0"
      using r1 r0 by (simp_all add: run_jobComplete_def is_Reloading_def)
    ultimately show ?thesis
      by (simp add: dispatch_def step_no_subscriber)
  next
    case (Some a)
    then show ?thesis
      using r1 r0 by (simp add: dispatch_def step_Reloading)
  qed
  have one: "\<exists>s'. dispatch d [u, r1, r0] closed c st = (if closed then Returned s' else Blocked s')
                \<and> seen (reloadCh (conn s')) = seen (reloadCh c) @ [True]"
    and one': "\<exists>s'. dispatch d [u, r1, r1', r0] closed c st
                    = (if closed then Returned s' else Blocked s')
                \<and> seen (reloadCh (conn s')) = seen (reloadCh c) @ [True]"
    if sub: "updateCh c \<noteq> None" and room: "sendable (reloadCh c)"
    using sub room u r1 r1' r0
    by (simp_all add: dispatch_def step_Reloading step_UnitFilesChanged
        sendSubStateReload_frame seen_sendSubStateReload)
  from none one one' show ?thesis by blast
qed

text \<open>
  The theorem at a subscriber with an update channel and an empty reload channel of
  capacity one, on a queue that is closed after the three signals.
\<close>

theorem reload_coalescing_witness:
  "is_UnitFilesChanged sig_UnitFilesChanged \<and> is_Reloading True (sig_Reloading True)
   \<and> is_Reloading False (sig_Reloading False)
   \<and> seen (reloadCh (conn (final (dispatch no_units
        [sig_UnitFilesChanged, sig_Reloading True, sig_Reloading False] True
        (SetSubStateSubscriber (Some (empty_chan 1)) None (Some (empty_chan 1)) no_subscriber) []))))
      = [True]"
proof -
  have u: "is_UnitFilesChanged sig_UnitFilesChanged"
    by (simp add: is_UnitFilesChanged_def sig_UnitFilesChanged_def)
  have r1: "is_Reloading True (sig_Reloading True)"
    by (simp add: is_Reloading_def sig_Reloading_def body_bool_def)
  have r0: "is_Reloading False (sig_Reloading False)"
    by (simp add: is_Reloading_def sig_Reloading_def body_bool_def)
  let ?c = "SetSubStateSubscriber (Some (empty_chan 1)) None (Some (empty_chan 1)) no_subscriber"
  have c: "updateCh ?c \<noteq> None \<and> sendable (reloadCh ?c) \<and> seen (reloadCh ?c) = []"
    by (simp add: SetSubStateSubscriber_def sendable_def chan_ready_def receiver_waiting_def
        empty_chan_def seen_def chan_seen_def)
  from reload_coalescing [OF u r1 r1 r0, of ?c no_units True "[]"] c
  have "seen (reloadCh (conn (final (dispatch no_units
        [sig_UnitFilesChanged, sig_Reloading True, sig_Reloading False] True ?c [])))) = [True]"
    by auto
  with u r1 r0 show ?thesis by simp
qed

text \<open>
  The claim as stated fails once the subscriber has been removed: the update channel
  is nil, the reload channel is still installed and empty, and line 60 skips every
  signal before the switch is reached. The three signals leave the reload channel
  without any event.
\<close>

theorem reload_coalescing_counterexample:
  "sendable (reloadCh (RemoveSubStateSubscriber
       (SetSubStateSubscriber (Some (empty_chan 1)) (Some (empty_chan 1)) (Some (empty_chan 1))
          no_subscriber)))
   \<and> seen (reloadCh (conn (final (dispatch no_units
        [sig_UnitFilesChanged, sig_Reloading True, sig_Reloading False] True
        (RemoveSubStateSubscriber
           (SetSubStateSubscriber (Some (empty_chan 1)) (Some (empty_chan 1)) (Some (empty_chan 1))
              no_subscriber)) [])))) = []"
  by (simp add: dispatch_def dispatch_signal_def run_jobComplete_def
      RemoveSubStateSubscriber_def SetSubStateSubscriber_def no_subscriber_def
      sig_UnitFilesChanged_def sig_Reloading_def sendable_def chan_ready_def
      receiver_waiting_def empty_chan_def seen_def chan_seen_def)

text \<open>
  C2 (as amended). In one iteration of the loop the reload channel receives
  something only if the signal is a Reloading notification carrying false, taken
  while \<^verbatim>\<open>unitFilesChanged\<close> is true and an update channel is installed; what it
  receives is then one reload event. The previous value of the reloading flag plays
  no part. Every such notification resets \<^verbatim>\<open>unitFilesChanged\<close> to false, whether or
  not the non-blocking send went through.
\<close>

theorem reload_event_only_on_false_with_files_changed:
  "(seen (reloadCh (conn (step_state (dispatch_signal d signal s)))) \<noteq> seen (reloadCh (conn s))
      \<longrightarrow> is_Reloading False signal \<and> unitFilesChanged s \<and> updateCh (conn s) \<noteq> None
          \<and> seen (reloadCh (conn (step_state (dispatch_signal d signal s))))
              = seen (reloadCh (conn s)) @ [True])
   \<and> (is_Reloading False signal \<and> unitFilesChanged s \<and> updateCh (conn s) \<noteq> None
      \<longrightarrow> dispatch_signal d signal s =
            Continue (s\<lparr>conn := sendSubStateReload (conn s), reloadState := False,
                       unitFilesChanged := False\<rparr>))"
proof (rule conjI; rule impI)
  assume ch: "seen (reloadCh (conn (step_state (dispatch_signal d signal s))))
                \<noteq> seen (reloadCh (conn s))"
  then have c: "updateCh (conn s) \<noteq> None \<and> is_Reloading False signal \<and> unitFilesChanged s"
    using step_reloadCh [of d signal s] by (auto split: if_splits)
  with ch show "is_Reloading False signal \<and> unitFilesChanged s \<and> updateCh (conn s) \<noteq> None
          \<and> seen (reloadCh (conn (step_state (dispatch_signal d signal s))))
              = seen (reloadCh (conn s)) @ [True]"
    using step_reloadCh [of d signal s] seen_sendSubStateReload [of "conn s"]
    by (auto split: if_splits)
next
  assume "is_Reloading False signal \<and> unitFilesChanged s \<and> updateCh (conn s) \<noteq> None"
  then show "dispatch_signal d signal s =
            Continue (s\<lparr>conn := sendSubStateReload (conn s), reloadState := False,
                       unitFilesChanged := False\<rparr>)"
    using step_Reloading [of False signal s d] by simp
qed

text \<open>
  The theorem at a subscriber with an empty reload channel of capacity one, in the
  loop state reached after a UnitFilesChanged notification.
\<close>

theorem reload_event_witness:
  "seen (reloadCh (conn (step_state (dispatch_signal no_units (sig_Reloading False)
       \<lparr>conn = SetSubStateSubscriber (Some (empty_chan 1)) None (Some (empty_chan 1)) no_subscriber,
        chans = [], reloadState = True, unitFilesChanged = True\<rparr>)))) = [True]
   \<and> is_Reloading False (sig_Reloading False)
   \<and> dispatch_signal no_units (sig_Reloading False)
       \<lparr>conn = SetSubStateSubscriber (Some (empty_chan 1)) None (Some (empty_chan 1)) no_subscriber,
        chans = [], reloadState = True, unitFilesChanged = True\<rparr>
     = Continue
       \<lparr>conn = sendSubStateReload
          (SetSubStateSubscriber (Some (empty_chan 1)) None (Some (empty_chan 1)) no_subscriber),
        chans = [], reloadState = False, unitFilesChanged = False\<rparr>"
proof -
  let ?c = "SetSubStateSubscriber (Some (empty_chan 1)) None (Some (empty_chan 1)) no_subscriber"
  let ?s = "\<lparr>conn = ?c, chans = [], reloadState = True, unitFilesChanged = True\<rparr>"
  have r0: "is_Reloading False (sig_Reloading False)"
    by (simp add: is_Reloading_def sig_Reloading_def body_bool_def)
  have sub: "updateCh (conn ?s) \<noteq> None" "unitFilesChanged ?s"
    by (simp_all add: SetSubStateSubscriber_def)
  have before: "seen (reloadCh (conn ?s)) = []"
    by (simp add: SetSubStateSubscriber_def seen_def chan_seen_def empty_chan_def)
  from reload_event_only_on_false_with_files_changed [of no_units "sig_Reloading False" ?s]
    r0 sub
  have step: "dispatch_signal no_units (sig_Reloading False) ?s =
      Continue (?s\<lparr>conn := sendSubStateReload (conn ?s), reloadState := False,
                   unitFilesChanged := False\<rparr>)"
    by blast
  then have "seen (reloadCh (conn (step_state (dispatch_signal no_units (sig_Reloading False) ?s))))
      \<noteq> seen (reloadCh (conn ?s))"
    by (simp add: seen_sendSubStateReload SetSubStateSubscriber_def sendable_def chan_ready_def
        receiver_waiting_def empty_chan_def)
  with reload_event_only_on_false_with_files_changed [of no_units "sig_Reloading False" ?s]
  have "seen (reloadCh (conn (step_state (dispatch_signal no_units (sig_Reloading False) ?s))))
      = seen (reloadCh (conn ?s)) @ [True]"
    by blast
  with before r0 step show ?thesis by simp
qed

text \<open>
  The claim as stated fails on [UnitFilesChanged, Reloading(false)]: the reloading
  flag is false before the second signal and false after it, so it never goes from
  true to false, and the reload channel receives an event all the same.
\<close>

theorem reload_event_counterexample:
  "dispatch_signal no_units sig_UnitFilesChanged
       \<lparr>conn = SetSubStateSubscriber (Some (empty_chan 1)) None (Some (empty_chan 1)) no_subscriber,
        chans = [], reloadState = False, unitFilesChanged = False\<rparr>
     = Continue
       \<lparr>conn = SetSubStateSubscriber (Some (empty_chan 1)) None (Some (empty_chan 1)) no_subscriber,
        chans = [], reloadState = False, unitFilesChanged = True\<rparr>
   \<and> seen (reloadCh (conn (step_state (dispatch_signal no_units (sig_Reloading False)
       \<lparr>conn = SetSubStateSubscriber (Some (empty_chan 1)) None (Some (empty_chan 1)) no_subscriber,
        chans = [], reloadState = False, unitFilesChanged = True\<rparr>)))) = [True]
   \<and> reloadState (step_state (dispatch_signal no_units (sig_Reloading False)
       \<lparr>conn = SetSubStateSubscriber (Some (empty_chan 1)) None (Some (empty_chan 1)) no_subscriber,
        chans = [], reloadState = False, unitFilesChanged = True\<rparr>)) = False"
  by (simp add: dispatch_signal_def run_jobComplete_def sendSubStateReload_def try_send_def
      chan_put_def SetSubStateSubscriber_def no_subscriber_def body_bool_def
      sig_UnitFilesChanged_def sig_Reloading_def chan_ready_def
      receiver_waiting_def empty_chan_def seen_def chan_seen_def)

section \<open>Job completion\<close>

text \<open>
  C3. With the registry's completion handler in place of \<^verbatim>\<open>jobComplete\<close>: after a
  watch is registered on a path P (the returned channel is fresh and has seen
  nothing), a JobRemoved notification whose origin path is P makes that channel see
  the notification's result, and P is gone from the job map. This stays so for the
  rest of the run, whatever signals follow, the same notification again included:
  the channel has seen the result exactly once.
\<close>

theorem job_result_delivered_once:
  assumes jc: "jobComplete d = jobComplete_spec result"
    and wf: "wf_registry (get_registry s)"
    and w: "watchJob P (get_registry s) = (r, reg)"
    and name: "Name signal = ''org.freedesktop.systemd1.Manager.JobRemoved''"
    and path: "Path signal = P"
    and fin: "s' = final (dispatch_loop d (signal # rest) closed (set_registry reg s))"
  shows "fst reg P = Some r \<and> r < length (snd reg) \<and> chan_seen (snd reg ! r) = []
       \<and> r < length (chans s') \<and> chan_seen (chans s' ! r) = [result signal]
       \<and> jobs (conn s') P = None"
proof -
  let ?s1 = "set_registry reg s"
  have reg: "get_registry ?s1 = reg"
    by (simp add: get_registry_def)
  have before: "fst reg P = Some r \<and> r < length (snd reg) \<and> chan_seen (snd reg ! r) = []"
    using w by (cases "get_registry s") (auto simp add: watchJob_def chan_seen_def)
  have "settled P r (result signal) (get_registry (run_jobComplete d signal ?s1))"
    using watch_then_complete [OF wf w path, of result] name jc
    by (simp add: get_registry_run_jobComplete reg)
  then have one: "settled P r (result signal)
      (get_registry (step_state (dispatch_signal d signal ?s1)))"
    by (simp add: step_registry)
  have "settled P r (result signal) (get_registry s')"
  proof (cases "dispatch_signal d signal ?s1")
    case (Continue s2)
    with one loop_settled [OF jc, of P r "result signal" s2 rest closed] fin
    show ?thesis by simp
  next
    case (Panic p s2)
    with one fin show ?thesis by simp
  qed
  with before show ?thesis
    by (simp add: settled_def get_registry_def)
qed

text \<open>
  The theorem for a watch on \<^verbatim>\<open>/j/1\<close> in an empty registry, with the completion
  notification delivered twice before the queue is closed.
\<close>

theorem job_result_delivered_once_witness:
  "jobComplete one_unit = jobComplete_spec result4
   \<and> wf_registry (Map.empty, [])
   \<and> watchJob ''/j/1'' (Map.empty, []) = (0, [''/j/1'' \<mapsto> 0], [empty_chan 1])
   \<and> chan_seen (chans (final (dispatch_loop one_unit
        [sig_JobRemoved ''/j/1'' ''a.service'' ''done'',
         sig_JobRemoved ''/j/1'' ''a.service'' ''done''] True
        (set_registry ([''/j/1'' \<mapsto> 0], [empty_chan 1])
           \<lparr>conn = no_subscriber, chans = [], reloadState = False,
            unitFilesChanged = False\<rparr>))) ! 0) = [''done'']
   \<and> jobs (conn (final (dispatch_loop one_unit
        [sig_JobRemoved ''/j/1'' ''a.service'' ''done'',
         sig_JobRemoved ''/j/1'' ''a.service'' ''done''] True
        (set_registry ([''/j/1'' \<mapsto> 0], [empty_chan 1])
           \<lparr>conn = no_subscriber, chans = [], reloadState = False,
            unitFilesChanged = False\<rparr>)))) ''/j/1'' = None"
proof -
  let ?s = "\<lparr>conn = no_subscriber, chans = [], reloadState = False, unitFilesChanged = False\<rparr>"
  let ?sig = "sig_JobRemoved ''/j/1'' ''a.service'' ''done''"
  let ?reg = "([''/j/1'' \<mapsto> (0::nat)], [empty_chan 1 :: string chan])"
  have jc: "jobComplete one_unit = jobComplete_spec result4"
    by (simp add: one_unit_def)
  have reg0: "get_registry ?s = (Map.empty, [])"
    by (simp add: get_registry_def no_subscriber_def)
  have wf: "wf_registry (get_registry ?s)"
    by (simp add: reg0 wf_registry_def)
  have w: "watchJob ''/j/1'' (get_registry ?s) = (0, ?reg)"
    by (simp add: reg0 watchJob_def empty_chan_def)
  have name: "Name ?sig = ''org.freedesktop.systemd1.Manager.JobRemoved''"
    and path: "Path ?sig = ''/j/1''"
    by (simp_all add: sig_JobRemoved_def)
  have res: "result4 ?sig = ''done''"
    by (simp add: result4_def sig_JobRemoved_def body_string_def)
  from job_result_delivered_once [OF jc wf w name path refl, of "[?sig]" True] res
  have "chan_seen (chans (final (dispatch_loop one_unit [?sig, ?sig] True
            (set_registry ?reg ?s))) ! 0) = [''done'']
      \<and> jobs (conn (final (dispatch_loop one_unit [?sig, ?sig] True
            (set_registry ?reg ?s)))) ''/j/1'' = None"
    by simp
  with jc wf w reg0 show ?thesis by simp
qed

section \<open>Delivery of a state update\<close>

text \<open>
  C4 (as amended). If the property fetch fails, \<^verbatim>\<open>sendSubStateUpdate\<close> offers the
  error to the error channel with a non-blocking send (the channel sees it exactly
  when it could take it), leaves the update channel alone and returns. If the fetch
  succeeds with \<^verbatim>\<open>SubState\<close> and \<^verbatim>\<open>Id\<close> present as strings, and the update channel is
  absent or full, the error "update channel full" is offered to the error channel in
  the same way, the update channel is left alone and the method returns. In both
  cases, when the error channel is absent or full as well, the connection is exactly
  as before: the event is dropped and nothing is kept for later.
\<close>

theorem sendSubStateUpdate_best_effort:
  "(GetUnitPropertiesFromObjectPath d path = Inl err \<longrightarrow>
      (\<exists>c'. sendSubStateUpdate d path c = Inr c'
          \<and> updateCh c' = updateCh c \<and> reloadCh c' = reloadCh c \<and> jobs c' = jobs c
          \<and> seen (errCh c') =
              (if sendable (errCh c) then seen (errCh c) @ [err] else seen (errCh c))
          \<and> (\<not> sendable (errCh c) \<longrightarrow> c' = c)))
   \<and> (GetUnitPropertiesFromObjectPath d path = Inr props
        \<and> prop_string props ''SubState'' = Inr sub \<and> prop_string props ''Id'' = Inr name
        \<and> \<not> sendable (updateCh c) \<longrightarrow>
      (\<exists>c'. sendSubStateUpdate d path c = Inr c'
          \<and> updateCh c' = updateCh c \<and> reloadCh c' = reloadCh c \<and> jobs c' = jobs c
          \<and> seen (errCh c') =
              (if sendable (errCh c) then seen (errCh c) @ [Error ''update channel full'']
               else seen (errCh c))
          \<and> (\<not> sendable (errCh c) \<longrightarrow> c' = c)))"
proof (rule conjI; rule impI)
  assume "GetUnitPropertiesFromObjectPath d path = Inl err"
  then have "sendSubStateUpdate d path c =
      Inr (case try_send (errCh c) err of Some ch \<Rightarrow> c\<lparr>errCh := Some ch\<rparr> | None \<Rightarrow> c)"
    by (rule sendSubStateUpdate_fetch_failed)
  then show "\<exists>c'. sendSubStateUpdate d path c = Inr c'
          \<and> updateCh c' = updateCh c \<and> reloadCh c' = reloadCh c \<and> jobs c' = jobs c
          \<and> seen (errCh c') =
              (if sendable (errCh c) then seen (errCh c) @ [err] else seen (errCh c))
          \<and> (\<not> sendable (errCh c) \<longrightarrow> c' = c)"
    using send_error_effect [of c err] by simp
next
  assume a: "GetUnitPropertiesFromObjectPath d path = Inr props
        \<and> prop_string props ''SubState'' = Inr sub \<and> prop_string props ''Id'' = Inr name
        \<and> \<not> sendable (updateCh c)"
  then have "try_send (updateCh c)
       \<lparr>UnitName = name, SubState = sub, FileState = GetUnitFileState d name\<rparr> = None"
    by (simp add: try_send_None)
  with a have "sendSubStateUpdate d path c =
      Inr (case try_send (errCh c) (Error ''update channel full'') of
             Some ch \<Rightarrow> c\<lparr>errCh := Some ch\<rparr> | None \<Rightarrow> c)"
    by (simp add: sendSubStateUpdate_fetched)
  then show "\<exists>c'. sendSubStateUpdate d path c = Inr c'
          \<and> updateCh c' = updateCh c \<and> reloadCh c' = reloadCh c \<and> jobs c' = jobs c
          \<and> seen (errCh c') =
              (if sendable (errCh c) then seen (errCh c) @ [Error ''update channel full'']
               else seen (errCh c))
          \<and> (\<not> sendable (errCh c) \<longrightarrow> c' = c)"
    using send_error_effect [of c "Error ''update channel full''"] by simp
qed

text \<open>
  The theorem on the bus that knows one unit: a fetch that fails (no object at
  \<^verbatim>\<open>/nowhere\<close>) and a fetch that succeeds while there is no update channel, both with
  an empty error channel of capacity one.
\<close>

theorem sendSubStateUpdate_best_effort_witness:
  "GetUnitPropertiesFromObjectPath one_unit ''/nowhere'' = Inl (Error ''no such object'')
   \<and> seen (errCh (projr (sendSubStateUpdate one_unit ''/nowhere''
        (SetSubStateSubscriber None (Some (empty_chan 1)) None no_subscriber))))
       = [Error ''no such object'']
   \<and> GetUnitPropertiesFromObjectPath one_unit ''/u/a''
       = Inr [''Id'' \<mapsto> VString ''a.service'', ''SubState'' \<mapsto> VString ''running'']
   \<and> \<not> sendable (updateCh (SetSubStateSubscriber None (Some (empty_chan 1)) None no_subscriber))
   \<and> seen (errCh (projr (sendSubStateUpdate one_unit ''/u/a''
        (SetSubStateSubscriber None (Some (empty_chan 1)) None no_subscriber))))
       = [Error ''update channel full'']"
proof -
  let ?c = "SetSubStateSubscriber None (Some (empty_chan 1)) None no_subscriber"
  let ?props = "[''Id'' \<mapsto> VString ''a.service'', ''SubState'' \<mapsto> VString ''running'']"
  have f1: "GetUnitPropertiesFromObjectPath one_unit ''/nowhere'' = Inl (Error ''no such object'')"
    by (simp add: one_unit_def)
  have f2: "GetUnitPropertiesFromObjectPath one_unit ''/u/a'' = Inr ?props"
    by (simp add: one_unit_def)
  have p: "prop_string ?props ''SubState'' = Inr ''running''"
    "prop_string ?props ''Id'' = Inr ''a.service''"
    by (simp_all add: prop_string_def)
  have ch: "\<not> sendable (updateCh ?c)" "sendable (errCh ?c)" "seen (errCh ?c) = []"
    by (simp_all add: SetSubStateSubscriber_def sendable_def chan_ready_def receiver_waiting_def
        empty_chan_def seen_def chan_seen_def)
  from sendSubStateUpdate_best_effort
    [of one_unit "''/nowhere''" "Error ''no such object''" ?c ?props "''running''" "''a.service''"]
    f1 ch
  have a: "seen (errCh (projr (sendSubStateUpdate one_unit ''/nowhere'' ?c)))
      = [Error ''no such object'']"
    by auto
  from sendSubStateUpdate_best_effort
    [of one_unit "''/u/a''" "Error ''no such object''" ?c ?props "''running''" "''a.service''"]
    f2 p ch
  have b: "seen (errCh (projr (sendSubStateUpdate one_unit ''/u/a'' ?c)))
      = [Error ''update channel full'']"
    by auto
  from f1 f2 ch a b show ?thesis by simp
qed

text \<open>
  The claim as stated fails when the fetch succeeds without a \<^verbatim>\<open>SubState\<close> string:
  with no update channel and room on the error channel, the type assertion of line
  146 panics before any send is tried, and nothing reaches the error channel.
\<close>

theorem sendSubStateUpdate_best_effort_counterexample:
  "GetUnitPropertiesFromObjectPath bare_object ''/u/a'' = Inr Map.empty
   \<and> \<not> sendable (updateCh (SetSubStateSubscriber None (Some (empty_chan 1)) None no_subscriber))
   \<and> sendable (errCh (SetSubStateSubscriber None (Some (empty_chan 1)) None no_subscriber))
   \<and> sendSubStateUpdate bare_object ''/u/a''
        (SetSubStateSubscriber None (Some (empty_chan 1)) None no_subscriber)
      = Inl TypeAssertion"
  by (simp add: bare_object_def sendSubStateUpdate_def prop_string_def
      SetSubStateSubscriber_def sendable_def chan_ready_def receiver_waiting_def empty_chan_def)

section \<open>Reload bookkeeping and the subscriber gate\<close>

text \<open>
  C5 (as amended). The reload bookkeeping is done only while an update channel is
  installed: then a Reloading notification sets \<^verbatim>\<open>reloadState\<close> to its first body
  element and a UnitFilesChanged notification sets \<^verbatim>\<open>unitFilesChanged\<close> to true.
  While the update channel is nil, line 60 skips the rest of the iteration and both
  variables keep their values, whatever the signal.
\<close>

theorem reload_bookkeeping_gated:
  "(updateCh (conn s) \<noteq> None \<and> is_Reloading b signal \<longrightarrow>
      (\<exists>s'. dispatch_signal d signal s = Continue s' \<and> reloadState s' = b))
   \<and> (updateCh (conn s) \<noteq> None \<and> is_UnitFilesChanged signal \<longrightarrow>
      dispatch_signal d signal s = Continue (s\<lparr>unitFilesChanged := True\<rparr>))
   \<and> (updateCh (conn s) = None \<longrightarrow>
      reloadState (step_state (dispatch_signal d signal s)) = reloadState s
      \<and> unitFilesChanged (step_state (dispatch_signal d signal s)) = unitFilesChanged s)"
proof -
  have "\<exists>s'. dispatch_signal d signal s = Continue s' \<and> reloadState s' = b"
    if "updateCh (conn s) \<noteq> None" "is_Reloading b signal"
    using step_Reloading [OF that(2) that(1), of d] by simp
  moreover have "dispatch_signal d signal s = Continue (s\<lparr>unitFilesChanged := True\<rparr>)"
    if "updateCh (conn s) \<noteq> None" "is_UnitFilesChanged signal"
    using step_UnitFilesChanged [OF that(2) that(1)] .
  ultimately show ?thesis
    using step_locals_no_subscriber [of s d signal] by blast
qed

text \<open>
  The theorem with an update channel installed, for Reloading(true) and for
  UnitFilesChanged, and without a subscriber.
\<close>

theorem reload_bookkeeping_gated_witness:
  "is_Reloading True (sig_Reloading True) \<and> is_UnitFilesChanged sig_UnitFilesChanged
   \<and> reloadState (step_state (dispatch_signal no_units (sig_Reloading True)
        \<lparr>conn = SetSubStateSubscriber (Some (empty_chan 1)) None None no_subscriber,
         chans = [], reloadState = False, unitFilesChanged = False\<rparr>)) = True
   \<and> dispatch_signal no_units sig_UnitFilesChanged
        \<lparr>conn = SetSubStateSubscriber (Some (empty_chan 1)) None None no_subscriber,
         chans = [], reloadState = False, unitFilesChanged = False\<rparr>
      = Continue
        \<lparr>conn = SetSubStateSubscriber (Some (empty_chan 1)) None None no_subscriber,
         chans = [], reloadState = False, unitFilesChanged = True\<rparr>
   \<and> updateCh no_subscriber = None
   \<and> unitFilesChanged (step_state (dispatch_signal no_units sig_UnitFilesChanged
        \<lparr>conn = no_subscriber, chans = [], reloadState = False,
         unitFilesChanged = False\<rparr>)) = False"
proof -
  let ?c = "SetSubStateSubscriber (Some (empty_chan 1)) None None no_subscriber"
  let ?s = "\<lparr>conn = ?c, chans = [], reloadState = False, unitFilesChanged = False\<rparr>"
  let ?t = "\<lparr>conn = no_subscriber, chans = [], reloadState = False,
              unitFilesChanged = False\<rparr>"
  have r1: "is_Reloading True (sig_Reloading True)"
    by (simp add: is_Reloading_def sig_Reloading_def body_bool_def)
  have u: "is_UnitFilesChanged sig_UnitFilesChanged"
    by (simp add: is_UnitFilesChanged_def sig_UnitFilesChanged_def)
  have sub: "updateCh (conn ?s) \<noteq> None"
    by (simp add: SetSubStateSubscriber_def)
  have none: "updateCh (conn ?t) = None"
    by (simp add: no_subscriber_def)
  from reload_bookkeeping_gated [of ?s True "sig_Reloading True" no_units] r1 sub
  have "\<exists>s'. dispatch_signal no_units (sig_Reloading True) ?s = Continue s'
      \<and> reloadState s' = True"
    by blast
  then have a: "reloadState (step_state (dispatch_signal no_units (sig_Reloading True) ?s)) = True"
    by auto
  from reload_bookkeeping_gated [of ?s True sig_UnitFilesChanged no_units] u sub
  have b: "dispatch_signal no_units sig_UnitFilesChanged ?s
      = Continue (?s\<lparr>unitFilesChanged := True\<rparr>)"
    by blast
  from reload_bookkeeping_gated [of ?t True sig_UnitFilesChanged no_units] none
  have "unitFilesChanged (step_state (dispatch_signal no_units sig_UnitFilesChanged ?t))
      = unitFilesChanged ?t"
    by blast
  then have c: "unitFilesChanged (step_state (dispatch_signal no_units sig_UnitFilesChanged ?t))
      = False"
    by simp
  have none': "updateCh no_subscriber = None"
    by (simp add: no_subscriber_def)
  from b have b': "dispatch_signal no_units sig_UnitFilesChanged ?s
      = Continue \<lparr>conn = ?c, chans = [], reloadState = False, unitFilesChanged = True\<rparr>"
    by simp
  from r1 u a b' c none' show ?thesis by blast
qed

text \<open>
  The claim as stated fails when no subscriber is configured: a UnitFilesChanged
  notification leaves \<^verbatim>\<open>unitFilesChanged\<close> false and a Reloading(true) notification
  leaves \<^verbatim>\<open>reloadState\<close> false.
\<close>

theorem reload_bookkeeping_counterexample:
  "unitFilesChanged (step_state (dispatch_signal no_units sig_UnitFilesChanged
       \<lparr>conn = no_subscriber, chans = [], reloadState = False,
        unitFilesChanged = False\<rparr>)) = False
   \<and> reloadState (step_state (dispatch_signal no_units (sig_Reloading True)
       \<lparr>conn = no_subscriber, chans = [], reloadState = False,
        unitFilesChanged = False\<rparr>)) = False"
  by (simp add: dispatch_signal_def run_jobComplete_def no_subscriber_def
      sig_UnitFilesChanged_def sig_Reloading_def)

section \<open>The candidate unit path\<close>

text \<open>
  C6. The candidate path of the routing algorithm is what the loop delivers on. For
  a JobRemoved notification it is the result of the \<^verbatim>\<open>GetUnit\<close> lookup on the third
  body element, and none (the empty path) when the lookup fails; for a
  PropertiesChanged notification it is the origin path exactly when the first body
  element is the unit interface name, and none otherwise. With an update channel
  installed, the iteration for such a notification ends after the job completion
  when there is no candidate, and otherwise is the delivery of a state update for
  the candidate. Whatever the notification, when there is no candidate neither the
  update channel nor the error channel changes.
\<close>

theorem candidate_path_routing:
  "(Name signal = ''org.freedesktop.systemd1.Manager.JobRemoved''
      \<and> body_string (Body signal) 2 = Inr unitName \<longrightarrow>
        candidate d signal = (case GetUnit d unitName of Inl err \<Rightarrow> [] | Inr p \<Rightarrow> p))
   \<and> (Name signal = ''org.freedesktop.DBus.Properties.PropertiesChanged''
      \<and> body_string (Body signal) 0 = Inr iface \<longrightarrow>
        candidate d signal =
          (if iface = ''org.freedesktop.systemd1.Unit'' then Path signal else []))
   \<and> (updateCh (conn s) \<noteq> None
      \<and> (Name signal = ''org.freedesktop.systemd1.Manager.JobRemoved''
            \<and> body_string (Body signal) 2 = Inr unitName
          \<or> Name signal = ''org.freedesktop.DBus.Properties.PropertiesChanged''
            \<and> body_string (Body signal) 0 = Inr iface) \<longrightarrow>
        dispatch_signal d signal s =
          (if candidate d signal = [] then Continue (run_jobComplete d signal s)
           else (case sendSubStateUpdate d (candidate d signal)
                        (conn (run_jobComplete d signal s)) of
                   Inl p \<Rightarrow> Panic p (run_jobComplete d signal s)
                 | Inr c \<Rightarrow> Continue ((run_jobComplete d signal s)\<lparr>conn := c\<rparr>))))
   \<and> (candidate d signal = [] \<longrightarrow>
        updateCh (conn (step_state (dispatch_signal d signal s))) = updateCh (conn s)
        \<and> errCh (conn (step_state (dispatch_signal d signal s))) = errCh (conn s))"
proof (intro conjI)
  show "Name signal = ''org.freedesktop.systemd1.Manager.JobRemoved''
      \<and> body_string (Body signal) 2 = Inr unitName \<longrightarrow>
        candidate d signal = (case GetUnit d unitName of Inl err \<Rightarrow> [] | Inr p \<Rightarrow> p)"
    using candidate_JobRemoved [of signal unitName d] by blast
  show "Name signal = ''org.freedesktop.DBus.Properties.PropertiesChanged''
      \<and> body_string (Body signal) 0 = Inr iface \<longrightarrow>
        candidate d signal =
          (if iface = ''org.freedesktop.systemd1.Unit'' then Path signal else [])"
    using candidate_PropertiesChanged [of signal iface d] by blast
  show "updateCh (conn s) \<noteq> None
      \<and> (Name signal = ''org.freedesktop.systemd1.Manager.JobRemoved''
            \<and> body_string (Body signal) 2 = Inr unitName
          \<or> Name signal = ''org.freedesktop.DBus.Properties.PropertiesChanged''
            \<and> body_string (Body signal) 0 = Inr iface) \<longrightarrow>
        dispatch_signal d signal s =
          (if candidate d signal = [] then Continue (run_jobComplete d signal s)
           else (case sendSubStateUpdate d (candidate d signal)
                        (conn (run_jobComplete d signal s)) of
                   Inl p \<Rightarrow> Panic p (run_jobComplete d signal s)
                 | Inr c \<Rightarrow> Continue ((run_jobComplete d signal s)\<lparr>conn := c\<rparr>)))"
  proof (intro impI, elim conjE disjE)
    assume sub: "updateCh (conn s) \<noteq> None"
      and n: "Name signal = ''org.freedesktop.systemd1.Manager.JobRemoved''"
      and b: "body_string (Body signal) 2 = Inr unitName"
    show "dispatch_signal d signal s =
          (if candidate d signal = [] then Continue (run_jobComplete d signal s)
           else (case sendSubStateUpdate d (candidate d signal)
                        (conn (run_jobComplete d signal s)) of
                   Inl p \<Rightarrow> Panic p (run_jobComplete d signal s)
                 | Inr c \<Rightarrow> Continue ((run_jobComplete d signal s)\<lparr>conn := c\<rparr>)))"
      using b by (simp add: step_JobRemoved [OF n sub] candidate_JobRemoved [OF n b] deliver_def)
  next
    assume sub: "updateCh (conn s) \<noteq> None"
      and n: "Name signal = ''org.freedesktop.DBus.Properties.PropertiesChanged''"
      and b: "body_string (Body signal) 0 = Inr iface"
    from n have rj: "run_jobComplete d signal s = s" by (simp add: run_jobComplete_def)
    show "dispatch_signal d signal s =
          (if candidate d signal = [] then Continue (run_jobComplete d signal s)
           else (case sendSubStateUpdate d (candidate d signal)
                        (conn (run_jobComplete d signal s)) of
                   Inl p \<Rightarrow> Panic p (run_jobComplete d signal s)
                 | Inr c \<Rightarrow> Continue ((run_jobComplete d signal s)\<lparr>conn := c\<rparr>)))"
      unfolding rj using b
      by (simp add: step_PropertiesChanged [OF n sub] candidate_PropertiesChanged [OF n b]
          deliver_def)
  qed
  show "candidate d signal = [] \<longrightarrow>
        updateCh (conn (step_state (dispatch_signal d signal s))) = updateCh (conn s)
        \<and> errCh (conn (step_state (dispatch_signal d signal s))) = errCh (conn s)"
    using step_no_candidate [of d signal s] by blast
qed

text \<open>
  The theorem on the bus that knows \<^verbatim>\<open>a.service\<close>: a JobRemoved notification for that
  unit, a PropertiesChanged notification of its object, and a Reloading
  notification, which has no candidate.
\<close>

theorem candidate_path_routing_witness:
  "candidate one_unit (sig_JobRemoved ''/j/1'' ''a.service'' ''done'') = ''/u/a''
   \<and> candidate one_unit (sig_PropertiesChanged ''/u/a'') = ''/u/a''
   \<and> seen (updateCh (conn (step_state (dispatch_signal one_unit
        (sig_JobRemoved ''/j/1'' ''a.service'' ''done'')
        \<lparr>conn = SetSubStateSubscriber (Some (empty_chan 1)) None None no_subscriber,
         chans = [], reloadState = False, unitFilesChanged = False\<rparr>))))
       = [\<lparr>UnitName = ''a.service'', SubState = ''running'', FileState = ''enabled''\<rparr>]
   \<and> candidate one_unit (sig_Reloading True) = []
   \<and> updateCh (conn (step_state (dispatch_signal one_unit (sig_Reloading True)
        \<lparr>conn = SetSubStateSubscriber (Some (empty_chan 1)) None None no_subscriber,
         chans = [], reloadState = False, unitFilesChanged = False\<rparr>)))
       = Some (empty_chan 1)"
proof -
  let ?c = "SetSubStateSubscriber (Some (empty_chan 1)) None None no_subscriber"
  let ?s = "\<lparr>conn = ?c, chans = [], reloadState = False, unitFilesChanged = False\<rparr>"
  let ?job = "sig_JobRemoved ''/j/1'' ''a.service'' ''done''"
  let ?pc = "sig_PropertiesChanged ''/u/a''"
  have sub: "updateCh (conn ?s) \<noteq> None" "updateCh (conn ?s) = Some (empty_chan 1)"
    by (simp_all add: SetSubStateSubscriber_def)
  have job: "Name ?job = ''org.freedesktop.systemd1.Manager.JobRemoved''"
    "body_string (Body ?job) 2 = Inr ''a.service''"
    by (simp_all add: sig_JobRemoved_def body_string_def)
  have pc: "Name ?pc = ''org.freedesktop.DBus.Properties.PropertiesChanged''"
    "body_string (Body ?pc) 0 = Inr ''org.freedesktop.systemd1.Unit''" "Path ?pc = ''/u/a''"
    by (simp_all add: sig_PropertiesChanged_def body_string_def)
  have lookup: "GetUnit one_unit ''a.service'' = Inr ''/u/a''"
    by (simp add: one_unit_def)
  from candidate_path_routing [of ?job "''a.service''" one_unit "''x''" ?s] job lookup
  have a: "candidate one_unit ?job = ''/u/a''"
    by simp
  from candidate_path_routing [of ?pc "''x''" one_unit "''org.freedesktop.systemd1.Unit''" ?s] pc
  have b: "candidate one_unit ?pc = ''/u/a''"
    by simp
  from candidate_path_routing [of ?job "''a.service''" one_unit "''x''" ?s] job sub(1) a
  have "dispatch_signal one_unit ?job ?s =
      (case sendSubStateUpdate one_unit ''/u/a'' (conn (run_jobComplete one_unit ?job ?s)) of
         Inl p \<Rightarrow> Panic p (run_jobComplete one_unit ?job ?s)
       | Inr c \<Rightarrow> Continue ((run_jobComplete one_unit ?job ?s)\<lparr>conn := c\<rparr>))"
    by simp
  then have c: "seen (updateCh (conn (step_state (dispatch_signal one_unit ?job ?s))))
      = [\<lparr>UnitName = ''a.service'', SubState = ''running'', FileState = ''enabled''\<rparr>]"
    by (simp add: run_jobComplete_def sig_JobRemoved_def one_unit_def jobComplete_spec_def
        get_registry_def no_subscriber_def SetSubStateSubscriber_def
        sendSubStateUpdate_def prop_string_def try_send_def chan_put_def chan_ready_def
        receiver_waiting_def empty_chan_def seen_def chan_seen_def)
  have d: "candidate one_unit (sig_Reloading True) = []"
    by (simp add: candidate_def sig_Reloading_def)
  with candidate_path_routing [of "sig_Reloading True" "''x''" one_unit "''x''" ?s] sub(2)
  have e: "updateCh (conn (step_state (dispatch_signal one_unit (sig_Reloading True) ?s)))
      = Some (empty_chan 1)"
    by simp
  from a b c d e show ?thesis by simp
qed

section \<open>Errors under backpressure\<close>

text \<open>
  C7 (as amended). If the update channel is unbuffered and nobody receives from it,
  then over any run of the loop no update is delivered, every notification adds at
  most one error to what the error channel sees, and the number of errors buffered
  on the error channel never exceeds its capacity (or what was buffered at the
  start, if that was more). The bound is the capacity of the error channel, not
  one.
\<close>

theorem unbuffered_update_channel_error_bound:
  assumes "updateCh c = Some u" and "cap u = 0" and "recvq u = 0"
    and "s' = final (dispatch d queue closed c st)"
  shows "updateCh (conn s') = Some u
       \<and> capacity (errCh (conn s')) = capacity (errCh c)
       \<and> buffered (errCh (conn s')) \<le> max (buffered (errCh c)) (capacity (errCh c))
       \<and> length (seen (errCh (conn s'))) \<le> length (seen (errCh c)) + length queue"
  using loop_channels [OF assms(2,3), of "\<lparr>conn = c, chans = st, reloadState = False,
      unitFilesChanged = False\<rparr>" d queue closed] assms(1,4)
  by (simp add: dispatch_def)

text \<open>
  The theorem for three PropertiesChanged notifications of a known unit, with an
  empty error channel of capacity one.
\<close>

theorem unbuffered_update_channel_witness:
  "updateCh (SetSubStateSubscriber (Some (empty_chan 0)) (Some (empty_chan 1)) None no_subscriber)
     = Some (empty_chan 0)
   \<and> cap (empty_chan 0 :: SubStateUpdate chan) = 0
   \<and> recvq (empty_chan 0 :: SubStateUpdate chan) = 0
   \<and> buffered (errCh (conn (final (dispatch one_unit
        [sig_PropertiesChanged ''/u/a'', sig_PropertiesChanged ''/u/a'',
         sig_PropertiesChanged ''/u/a''] True
        (SetSubStateSubscriber (Some (empty_chan 0)) (Some (empty_chan 1)) None no_subscriber)
        [])))) \<le> 1"
proof -
  let ?c = "SetSubStateSubscriber (Some (empty_chan 0)) (Some (empty_chan 1)) None no_subscriber"
  let ?q = "[sig_PropertiesChanged ''/u/a'', sig_PropertiesChanged ''/u/a'',
             sig_PropertiesChanged ''/u/a'']"
  have u: "updateCh ?c = Some (empty_chan 0)"
    by (simp add: SetSubStateSubscriber_def)
  have z: "cap (empty_chan 0 :: SubStateUpdate chan) = 0"
    "recvq (empty_chan 0 :: SubStateUpdate chan) = 0"
    by (simp_all add: empty_chan_def)
  have e: "buffered (errCh ?c) = 0" "capacity (errCh ?c) = 1"
    by (simp_all add: SetSubStateSubscriber_def buffered_def capacity_def empty_chan_def)
  from unbuffered_update_channel_error_bound [OF u z refl, of one_unit ?q True "[]"] e
  have "buffered (errCh (conn (final (dispatch one_unit ?q True ?c [])))) \<le> 1"
    by simp
  with u z show ?thesis by simp
qed

text \<open>
  The claim as stated fails with an error channel of capacity two: two
  PropertiesChanged notifications of a known unit, with an unbuffered update channel
  that nobody reads, leave two errors on the error channel.
\<close>

theorem unbuffered_update_channel_counterexample:
  "seen (errCh (conn (final (dispatch one_unit
       [sig_PropertiesChanged ''/u/a'', sig_PropertiesChanged ''/u/a''] True
       (SetSubStateSubscriber (Some (empty_chan 0)) (Some (empty_chan 2)) None no_subscriber) []))))
     = [Error ''update channel full'', Error ''update channel full'']
   \<and> buffered (errCh (conn (final (dispatch one_unit
       [sig_PropertiesChanged ''/u/a'', sig_PropertiesChanged ''/u/a''] True
       (SetSubStateSubscriber (Some (empty_chan 0)) (Some (empty_chan 2)) None no_subscriber) []))))
     = 2"
  by (simp add: dispatch_def dispatch_signal_def run_jobComplete_def deliver_def
      sendSubStateUpdate_def prop_string_def body_string_def try_send_def chan_put_def
      SetSubStateSubscriber_def no_subscriber_def one_unit_def sig_PropertiesChanged_def
      chan_ready_def receiver_waiting_def empty_chan_def seen_def chan_seen_def buffered_def)

section \<open>Shutdown\<close>

text \<open>
  C8. When the signal queue is closed, the dispatch loop returns: on the closed,
  empty queue it returns at once with the state untouched, and after any signals it
  is never left blocked in the receive. Returning does nothing of its own: the state
  the loop returns with on a closed queue is exactly the state in which it would
  wait for the next signal were the queue still open, so nothing is sent on any
  channel and no error is raised as part of the shutdown. A crash can only come
  from a signal, and does not depend on the queue being closed.
\<close>

theorem dispatch_closed_queue_returns:
  "dispatch d [] True c st =
     Returned \<lparr>conn = c, chans = st, reloadState = False, unitFilesChanged = False\<rparr>
   \<and> dispatch_loop d [] True s = Returned s
   \<and> (\<forall>s'. dispatch_loop d queue True s \<noteq> Blocked s')
   \<and> (\<forall>s'. (dispatch_loop d queue True s = Returned s')
           = (dispatch_loop d queue False s = Blocked s'))
   \<and> (\<forall>p s'. (dispatch_loop d queue True s = Crashed p s')
           = (dispatch_loop d queue False s = Crashed p s'))"
  using dispatch_loop_closed_open dispatch_loop_crash_any dispatch_loop_never_blocked
  by (simp add: dispatch_def)

section \<open>A new subscriber during a delivery\<close>



text \<open>
  The mutex is what this rests on. Were \<^verbatim>\<open>Lock\<close> never to wait, the caller could
  install its channels between the two sends of the delivery, which would then try
  the old update channel and put its error on the new error channel.
\<close>

lemma mixed_pair_without_mutex:
  "attempts (run_without_mutex one_unit ''/u/a''
       \<lparr>updateRef = Some 1, errRef = Some 1, reloadRef = None\<rparr>
       [Dispatcher, Dispatcher, Dispatcher, Caller, Caller, Caller, Caller, Dispatcher]
       (both_called \<lparr>updateRef = Some 0, errRef = Some 0, reloadRef = None\<rparr>
          (\<lambda>i. empty_chan 0) (\<lambda>i. empty_chan 1)))
     = [OnUpdateCh (Some 0), OnErrCh (Some 1)]"
  by (simp add: both_called_def sched_step_def send_step_def set_step_def after_fetch_def
      one_unit_def prop_string_def ref_try_send_def try_send_def chan_ready_def
      receiver_waiting_def empty_chan_def)

section \<open>Clearing the subscriber\<close>

text \<open>
  C10. \<^verbatim>\<open>RemoveSubStateSubscriber\<close> sets the update and the error channel to nil and
  leaves the reload channel field as it was: a reload channel installed by
  \<^verbatim>\<open>SetSubStateSubscriber\<close> is still installed after the subscriber is removed.
\<close>

theorem RemoveSubStateSubscriber_keeps_reloadCh:
  "updateCh (RemoveSubStateSubscriber c) = None
   \<and> errCh (RemoveSubStateSubscriber c) = None
   \<and> reloadCh (RemoveSubStateSubscriber c) = reloadCh c
   \<and> reloadCh (RemoveSubStateSubscriber (SetSubStateSubscriber u e r c)) = r"
  unfolding RemoveSubStateSubscriber_def SetSubStateSubscriber_def
  by simp

section \<open>Further properties of the loop\<close>

text \<open>
  A signal whose name is none of the four the loop knows changes nothing: the
  iteration ends with the state it started in.
\<close>

theorem unknown_signal_ignored:
  assumes "Name signal \<noteq> ''org.freedesktop.systemd1.Manager.JobRemoved''"
    and "Name signal \<noteq> ''org.freedesktop.DBus.Properties.PropertiesChanged''"
    and "Name signal \<noteq> ''org.freedesktop.systemd1.Manager.Reloading''"
    and "Name signal \<noteq> ''org.freedesktop.systemd1.Manager.UnitFilesChanged''"
  shows "dispatch_signal d signal s = Continue s"
  using assms by (rule step_other)

theorem unknown_signal_ignored_witness:
  "dispatch_signal one_unit
     \<lparr>Path = ''/org/freedesktop/DBus'', Name = ''org.freedesktop.DBus.NameOwnerChanged'',
      Body = [VString ''a'', VString ''b'', VString ''c'']\<rparr>
     \<lparr>conn = SetSubStateSubscriber (Some (empty_chan 1)) None None no_subscriber,
      chans = [], reloadState = False, unitFilesChanged = True\<rparr>
   = Continue
     \<lparr>conn = SetSubStateSubscriber (Some (empty_chan 1)) None None no_subscriber,
      chans = [], reloadState = False, unitFilesChanged = True\<rparr>"
  by (rule unknown_signal_ignored) simp_all

text \<open>
  Job completion is independent of the subscriber: after an iteration the job map
  and the callers' channels are what the completion handler made of them for a
  JobRemoved signal, and are unchanged for any other signal, whether or not an update
  channel is installed and whether or not the iteration ended in a panic.
\<close>

theorem job_completion_always_runs:
  "get_registry (step_state (dispatch_signal d signal s)) =
     (if Name signal = ''org.freedesktop.systemd1.Manager.JobRemoved''
      then jobComplete d signal (get_registry s) else get_registry s)"
  by (simp only: step_registry get_registry_run_jobComplete)

end
